theory Spec2Isabelle
  imports Main "HOL-Library.Finite_Map"
begin

section \<open>The script index builder of scripts/generate-script-index.ts\<close>

text \<open>
  The development embeds \<^verbatim>\<open>scripts/generate-script-index.ts\<close> (the builder that merges
  the project files into the script index) and \<^verbatim>\<open>normalizeHash\<close> of
  \<^verbatim>\<open>scripts/archived/import-missing-scripts.ts\<close>.

  Conventions of the embedding:
  \<^item> a JavaScript string is a \<open>string\<close>; a character stands for a code unit below 256;
  \<^item> an optional field (\<^verbatim>\<open>purpose?: string\<close>) is an \<open>option\<close>, \<open>None\<close> for \<^verbatim>\<open>undefined\<close>;
    a number is an \<open>int\<close>;
  \<^item> the objects \<^verbatim>\<open>scripts\<close> and \<^verbatim>\<open>projects\<close> (\<^verbatim>\<open>Record<string, ...>\<close>) are finite maps
    holding their own properties. A read \<^verbatim>\<open>projects[projectId]\<close> also sees the properties
    inherited from \<^verbatim>\<open>Object.prototype\<close> (\<open>getProperty\<close>): a label is free text and can
    derive the id \<^verbatim>\<open>constructor\<close>. The keys of \<^verbatim>\<open>scripts\<close> are lower-cased script hashes,
    hexadecimal strings, which are never such a name;
  \<^item> records hold the fields the TypeScript interfaces declare, with the declared types,
    so the only exception inside the loop over the files is a file that cannot be read
    or parsed;
  \<^item> the clock, the db-sync connection and the file system are arguments; writing an
    index or a project record and reading it back gives the same record;
  \<^item> of the console output the lines \<^verbatim>\<open>+ Project\<close> are kept, the counters of the
    summary are fields of the state.
\<close>

subsection \<open>Strings\<close>

definition isUpper :: "char \<Rightarrow> bool" where
  "isUpper c = (65 \<le> (of_char c :: nat) \<and> (of_char c :: nat) \<le> 90)"

definition isLower :: "char \<Rightarrow> bool" where
  "isLower c = (97 \<le> (of_char c :: nat) \<and> (of_char c :: nat) \<le> 122)"

definition isDigit :: "char \<Rightarrow> bool" where
  "isDigit c = (48 \<le> (of_char c :: nat) \<and> (of_char c :: nat) \<le> 57)"

text \<open>
  \<^verbatim>\<open>String.prototype.toLowerCase\<close> on one code unit below 256: the letters A to Z and
  the capital letters of Latin-1 (192 to 222 but the multiplication sign 215) move up by 32.
\<close>

definition toLowerChar :: "char \<Rightarrow> char" where
  "toLowerChar c =
     (let n = (of_char c :: nat)
      in if (65 \<le> n \<and> n \<le> 90) \<or> (192 \<le> n \<and> n \<le> 222 \<and> n \<noteq> 215)
         then char_of (n + 32) else c)"

definition toLowerCase :: "string \<Rightarrow> string" where
  "toLowerCase s = map toLowerChar s"

text \<open>The class \<^verbatim>\<open>[\s_]\<close>: white space below 256 and the underscore.\<close>

definition isSeparator :: "char \<Rightarrow> bool" where
  "isSeparator c =
     (let n = (of_char c :: nat)
      in (9 \<le> n \<and> n \<le> 13) \<or> n = 32 \<or> n = 160 \<or> n = 95)"

text \<open>\<^verbatim>\<open>.replace(/([a-z])([A-Z])/g, '$1-$2')\<close>\<close>

fun insertDashes :: "string \<Rightarrow> string" where
  "insertDashes (a # b # cs) =
     (if isLower a \<and> isUpper b then a # CHR ''-'' # b # insertDashes cs
      else a # insertDashes (b # cs))"
| "insertDashes cs = cs"

text \<open>\<^verbatim>\<open>.replace(/[\s_]+/g, '-')\<close>\<close>

function collapseSeparators :: "string \<Rightarrow> string" where
  "collapseSeparators [] = []"
| "collapseSeparators (c # cs) =
     (if isSeparator c then CHR ''-'' # collapseSeparators (dropWhile isSeparator cs)
      else c # collapseSeparators cs)"
  by pat_completeness auto
termination
  by (relation "measure length") (auto simp: less_Suc_eq_le length_dropWhile_le)

text \<open>\<^verbatim>\<open>.replace(/[^a-z0-9-]/gi, '')\<close>\<close>

definition keepSlugChars :: "string \<Rightarrow> string" where
  "keepSlugChars s = filter (\<lambda>c. isLower c \<or> isUpper c \<or> isDigit c \<or> c = CHR ''-'') s"

definition toKebabCase :: "string \<Rightarrow> string" where
  "toKebabCase str = toLowerCase (keepSlugChars (collapseSeparators (insertDashes str)))"

text \<open>
  \<^verbatim>\<open>normalizeHash\<close> of scripts/archived/import-missing-scripts.ts.
\<close>

definition normalizeHash :: "string \<Rightarrow> string" where
  "normalizeHash hash =
     (if length hash = 112 then toLowerCase (take 56 hash) else toLowerCase hash)"

subsection \<open>Data model\<close>

text \<open>The interfaces \<^verbatim>\<open>ProjectScript\<close>, \<^verbatim>\<open>Project\<close>, \<^verbatim>\<open>ScriptEntry\<close>, \<^verbatim>\<open>ProjectEntry\<close>
  and \<^verbatim>\<open>ScriptIndex\<close>. Of \<^verbatim>\<open>link\<close> the builder reads \<^verbatim>\<open>link?.website\<close> only.\<close>

record ProjectScript =
  ps_name :: string
  scriptHash :: string
  ps_purpose :: "string option"
  ps_type :: "string option"
  ps_plutusVersion :: "int option"

record Project =
  p_label :: "string option"
  projectName :: "string option"
  p_category :: "string option"
  p_subCategory :: "string option"
  link_website :: "string option"
  p_scripts :: "ProjectScript list option"

record ScriptEntry =
  projectId :: string
  se_name :: string
  se_purpose :: "string option"
  se_type :: "string option"
  se_plutusVersion :: "int option"

record ProjectEntry =
  pe_label :: string
  pe_category :: string
  pe_subCategory :: "string option"
  pe_link :: "string option"

record Metadata =
  generatedAt :: string
  scriptCount :: nat
  projectCount :: nat

record ScriptIndex =
  metadata :: Metadata
  scripts :: "(string, ScriptEntry) fmap"
  projects :: "(string, ProjectEntry) fmap"

text \<open>JavaScript truthiness of an optional string: defined and not empty.\<close>

definition truthy :: "string option \<Rightarrow> bool" where
  "truthy v = (case v of None \<Rightarrow> False | Some s \<Rightarrow> s \<noteq> [])"

text \<open>\<^verbatim>\<open>a || b\<close> on optional strings.\<close>

definition orElse :: "string option \<Rightarrow> string option \<Rightarrow> string option" where
  "orElse a b = (if truthy a then a else b)"

text \<open>\<^verbatim>\<open>a ?? b\<close> on an optional number.\<close>

definition nullish :: "int option \<Rightarrow> int option \<Rightarrow> int option" where
  "nullish a b = (case a of None \<Rightarrow> b | Some v \<Rightarrow> Some v)"

subsection \<open>The db-sync lookup\<close>

text \<open>
  \<^verbatim>\<open>dbPool.query\<close> either throws (rejects) or returns rows; of a row the code reads the
  column \<^verbatim>\<open>type\<close>. \<^verbatim>\<open>dbPool\<close> is \<open>None\<close> while the environment variables are not set.
\<close>

datatype query_result = QueryThrows | QueryRows "string list"

type_synonym db_pool = "string \<Rightarrow> query_result"

record ScriptInfo =
  info_type :: string
  info_plutusVersion :: int

text \<open>\<^verbatim>\<open>dbType.match(/PlutusV(\d)/i)\<close>: the digit captured by the leftmost match.\<close>

fun matchPlutusV :: "string \<Rightarrow> char option" where
  "matchPlutusV [] = None"
| "matchPlutusV (c # cs) =
     (case drop 7 (c # cs) of
        d # _ \<Rightarrow>
          if toLowerCase (take 7 (c # cs)) = ''plutusv'' \<and> isDigit d then Some d
          else matchPlutusV cs
      | [] \<Rightarrow> matchPlutusV cs)"

text \<open>\<^verbatim>\<open>parseInt(match[1], 10)\<close> of one decimal digit.\<close>

definition parseDigit :: "char \<Rightarrow> int" where
  "parseDigit d = int (of_char d) - 48"

definition lookupScriptInfo :: "db_pool option \<Rightarrow> string \<Rightarrow> ScriptInfo option" where
  "lookupScriptInfo dbPool hash =
     (case dbPool of
        None \<Rightarrow> None
      | Some query \<Rightarrow>
          (case query hash of
             QueryThrows \<Rightarrow> None
           | QueryRows [] \<Rightarrow> None
           | QueryRows (dbType # _) \<Rightarrow>
               if dbType = ''timelock''
               then Some \<lparr>info_type = ''NATIVE'', info_plutusVersion = 0\<rparr>
               else (case matchPlutusV dbType of
                       Some d \<Rightarrow> Some \<lparr>info_type = ''PLUTUS'', info_plutusVersion = parseDigit d\<rparr>
                     | None \<Rightarrow> None)))"

subsection \<open>Resolving type and plutusVersion\<close>

text \<open>
  What the resolution of one script leaves behind: the locals \<^verbatim>\<open>type\<close> and
  \<^verbatim>\<open>plutusVersion\<close>, the script object (mutated in place by the source, returned here),
  whether \<^verbatim>\<open>projectModified\<close> was set, and the increments of \<^verbatim>\<open>lookupCount\<close>.
\<close>

record resolution =
  r_type :: "string option"
  r_plutusVersion :: "int option"
  r_script :: ProjectScript
  r_modified :: bool
  r_lookups :: nat

text \<open>Nothing found: the locals are the script's own fields and the script is untouched.\<close>

definition unresolved :: "nat \<Rightarrow> ProjectScript \<Rightarrow> resolution" where
  "unresolved n script =
     \<lparr>r_type = ps_type script, r_plutusVersion = ps_plutusVersion script,
      r_script = script, r_modified = False, r_lookups = n\<rparr>"

text \<open>
  The block the source runs with \<^verbatim>\<open>existing\<close> and again with \<^verbatim>\<open>info\<close>:
  \<^verbatim>\<open>type = type || src.type; plutusVersion = plutusVersion ?? src.plutusVersion;\<close>
  then the two guarded assignments to the script object.
\<close>

definition fillFrom :: "string option \<Rightarrow> int option \<Rightarrow> nat \<Rightarrow> ProjectScript \<Rightarrow> resolution" where
  "fillFrom srcType srcVersion n script =
     (let setType = (\<not> truthy (ps_type script) \<and> truthy srcType);
          script1 = (if setType then script\<lparr>ps_type := srcType\<rparr> else script);
          setVersion = (ps_plutusVersion script1 = None \<and> srcVersion \<noteq> None);
          script2 = (if setVersion then script1\<lparr>ps_plutusVersion := srcVersion\<rparr> else script1)
      in \<lparr>r_type = orElse (ps_type script) srcType,
          r_plutusVersion = nullish (ps_plutusVersion script) srcVersion,
          r_script = script2, r_modified = (setType \<or> setVersion), r_lookups = n\<rparr>)"

text \<open>\<^verbatim>\<open>existing?.type && existing?.plutusVersion !== undefined\<close>\<close>

definition hasClassification :: "ScriptEntry option \<Rightarrow> bool" where
  "hasClassification existing =
     (case existing of
        None \<Rightarrow> False
      | Some e \<Rightarrow> truthy (se_type e) \<and> se_plutusVersion e \<noteq> None)"

definition resolve ::
  "db_pool option \<Rightarrow> ScriptEntry option \<Rightarrow> string \<Rightarrow> ProjectScript \<Rightarrow> resolution" where
  "resolve dbPool existing hash script =
     (if \<not> truthy (ps_type script) \<or> ps_plutusVersion script = None then
        (if hasClassification existing then
           (case existing of
              Some e \<Rightarrow> fillFrom (se_type e) (se_plutusVersion e) 0 script
            | None \<Rightarrow> unresolved 0 script)
         else if dbPool \<noteq> None then
           (case lookupScriptInfo dbPool hash of
              Some info \<Rightarrow>
                fillFrom (Some (info_type info)) (Some (info_plutusVersion info)) 1 script
            | None \<Rightarrow> unresolved 1 script)
         else unresolved 0 script)
      else unresolved 0 script)"

subsection \<open>The pass over the project files\<close>

text \<open>
  The state of the pass: the two maps, the counters, the staged project files and the
  console lines \<^verbatim>\<open>+ Project: <projectId>\<close>.
\<close>

record build_state =
  st_scripts :: "(string, ScriptEntry) fmap"
  st_projects :: "(string, ProjectEntry) fmap"
  added :: nat
  updated :: nat
  unchanged :: nat
  lookupCount :: nat
  projectFilesToUpdate :: "(string \<times> Project) list"
  projectsLogged :: "string list"

text \<open>The entry the source builds for a script (\<^verbatim>\<open>newEntry\<close>).\<close>

definition newEntryOf :: "string \<Rightarrow> ProjectScript \<Rightarrow> resolution \<Rightarrow> ScriptEntry" where
  "newEntryOf pid script r =
     \<lparr>projectId = pid, se_name = ps_name script, se_purpose = ps_purpose script,
      se_type = r_type r, se_plutusVersion = r_plutusVersion r\<rparr>"

text \<open>
  The body of \<^verbatim>\<open>for (const script of project.scripts)\<close>. It returns the state, the
  script object after the body and whether the body set \<^verbatim>\<open>projectModified\<close>.
\<close>

definition processScript ::
  "db_pool option \<Rightarrow> string \<Rightarrow> build_state \<Rightarrow> ProjectScript \<Rightarrow> build_state \<times> ProjectScript \<times> bool" where
  "processScript dbPool pid st script =
     (if scriptHash script = [] then (st, script, False)
      else
        let hash = toLowerCase (scriptHash script);
            existing = fmlookup (st_scripts st) hash;
            r = resolve dbPool existing hash script;
            newEntry = newEntryOf pid script r;
            st1 = st\<lparr>lookupCount := lookupCount st + r_lookups r\<rparr>
        in (case existing of
              None \<Rightarrow>
                (st1\<lparr>st_scripts := fmupd hash newEntry (st_scripts st1), added := added st1 + 1\<rparr>,
                 r_script r, r_modified r)
            | Some e \<Rightarrow>
                if projectId e \<noteq> projectId newEntry \<or>
                   se_name e \<noteq> se_name newEntry \<or>
                   se_purpose e \<noteq> se_purpose newEntry \<or>
                   se_type e \<noteq> se_type newEntry \<or>
                   se_plutusVersion e \<noteq> se_plutusVersion newEntry
                then
                  (st1\<lparr>st_scripts := fmupd hash newEntry (st_scripts st1),
                       updated := updated st1 + 1\<rparr>,
                   r_script r, r_modified r)
                else (st1\<lparr>unchanged := unchanged st1 + 1\<rparr>, r_script r, r_modified r)))"

fun processScripts ::
  "db_pool option \<Rightarrow> string \<Rightarrow> build_state \<Rightarrow> ProjectScript list \<Rightarrow>
   build_state \<times> ProjectScript list \<times> bool" where
  "processScripts dbPool pid st [] = (st, [], False)"
| "processScripts dbPool pid st (script # rest) =
     (case processScript dbPool pid st script of
        (st1, script', m1) \<Rightarrow>
          (case processScripts dbPool pid st1 rest of
             (st2, rest', m2) \<Rightarrow> (st2, script' # rest', m1 \<or> m2)))"

text \<open>\<^verbatim>\<open>project.category || 'UNKNOWN'\<close>\<close>

definition categoryOrUnknown :: "string option \<Rightarrow> string" where
  "categoryOrUnknown c = (case c of None \<Rightarrow> ''UNKNOWN'' | Some v \<Rightarrow> if v = [] then ''UNKNOWN'' else v)"

definition newProjectEntry :: "string \<Rightarrow> Project \<Rightarrow> ProjectEntry" where
  "newProjectEntry projectLabel project =
     \<lparr>pe_label = projectLabel, pe_category = categoryOrUnknown (p_category project),
      pe_subCategory = p_subCategory project, pe_link = link_website project\<rparr>"

text \<open>
  \<^verbatim>\<open>{ ...projects[projectId], ...newProjectEntry }\<close>: the object literal of
  \<^verbatim>\<open>newProjectEntry\<close> owns all four properties (an absent value is the own property
  \<^verbatim>\<open>undefined\<close>), so the spread writes each of them over the old entry.
\<close>

definition spreadOver :: "ProjectEntry \<Rightarrow> ProjectEntry \<Rightarrow> ProjectEntry" where
  "spreadOver old new =
     old\<lparr>pe_label := pe_label new, pe_category := pe_category new,
         pe_subCategory := pe_subCategory new, pe_link := pe_link new\<rparr>"

text \<open>
  The names every object inherits from \<^verbatim>\<open>Object.prototype\<close>, and what a read
  \<^verbatim>\<open>obj[name]\<close> gives: the own property, else the inherited function or object (truthy,
  with no enumerable property of its own), else \<^verbatim>\<open>undefined\<close>.
\<close>

definition inheritedNames :: "string list" where
  "inheritedNames =
     [''constructor'', ''__defineGetter__'', ''__defineSetter__'', ''hasOwnProperty'',
      ''__lookupGetter__'', ''__lookupSetter__'', ''isPrototypeOf'', ''propertyIsEnumerable'',
      ''toString'', ''valueOf'', ''__proto__'', ''toLocaleString'']"

datatype 'a js_property = OwnValue 'a | InheritedValue | Undefined

definition getProperty :: "(string, 'a) fmap \<Rightarrow> string \<Rightarrow> 'a js_property" where
  "getProperty obj name =
     (case fmlookup obj name of
        Some v \<Rightarrow> OwnValue v
      | None \<Rightarrow> if name \<in> set inheritedNames then InheritedValue else Undefined)"

text \<open>
  The upsert: \<^verbatim>\<open>if (!projects[projectId]) { projects[projectId] = newProjectEntry; log }\<close>
  \<^verbatim>\<open>else { projects[projectId] = { ...projects[projectId], ...newProjectEntry } }\<close>.
  With an inherited value the test fails, no line is logged, and the spread of that
  value adds nothing to the new entry. The assignment makes \<open>pid\<close> an own property
  (for every name but \<^verbatim>\<open>__proto__\<close>, which is no project id: \<open>toKebabCase\<close> keeps
  letters, digits and dashes only).
\<close>

definition upsertProject :: "string \<Rightarrow> ProjectEntry \<Rightarrow> build_state \<Rightarrow> build_state" where
  "upsertProject pid entry st =
     (case getProperty (st_projects st) pid of
        Undefined \<Rightarrow>
          st\<lparr>st_projects := fmupd pid entry (st_projects st),
             projectsLogged := projectsLogged st @ [pid]\<rparr>
      | InheritedValue \<Rightarrow> st\<lparr>st_projects := fmupd pid entry (st_projects st)\<rparr>
      | OwnValue old \<Rightarrow> st\<lparr>st_projects := fmupd pid (spreadOver old entry) (st_projects st)\<rparr>)"

text \<open>
  A directory entry: its name and what \<^verbatim>\<open>JSON.parse(readFileSync(filePath))\<close> gives, a
  project or an exception (which the \<^verbatim>\<open>catch\<close> of the loop body logs).
\<close>

datatype file_content = Unreadable | Json Project

text \<open>\<^verbatim>\<open>project.label || project.projectName\<close>, \<open>None\<close> when the result is falsy.\<close>

definition projectLabelOf :: "Project \<Rightarrow> string option" where
  "projectLabelOf project =
     (let l = orElse (p_label project) (projectName project)
      in if truthy l then l else None)"

text \<open>The body of \<^verbatim>\<open>for (const file of files)\<close>.\<close>

definition processFile ::
  "db_pool option \<Rightarrow> build_state \<Rightarrow> string \<times> file_content \<Rightarrow> build_state" where
  "processFile dbPool st file =
     (case snd file of
        Unreadable \<Rightarrow> st
      | Json project \<Rightarrow>
          (case projectLabelOf project of
             None \<Rightarrow> st
           | Some projectLabel \<Rightarrow>
               let pid = toKebabCase projectLabel;
                   st1 = upsertProject pid (newProjectEntry projectLabel project) st
               in (case p_scripts project of
                     None \<Rightarrow> st1
                   | Some [] \<Rightarrow> st1
                   | Some (s # ss) \<Rightarrow>
                       (case processScripts dbPool pid st1 (s # ss) of
                          (st2, scripts', projectModified) \<Rightarrow>
                            if projectModified
                            then st2\<lparr>projectFilesToUpdate :=
                                       projectFilesToUpdate st2 @
                                       [(fst file, project\<lparr>p_scripts := Some scripts'\<rparr>)]\<rparr>
                            else st2))))"

fun processFiles ::
  "db_pool option \<Rightarrow> build_state \<Rightarrow> (string \<times> file_content) list \<Rightarrow> build_state" where
  "processFiles dbPool st [] = st"
| "processFiles dbPool st (file # files) = processFiles dbPool (processFile dbPool st file) files"

subsection \<open>The file system and the whole run\<close>

text \<open>
  \<^verbatim>\<open>OUTPUT_FILE\<close> is missing, does not parse, or holds an index. \<^verbatim>\<open>PROJECTS_DIR\<close> is
  missing (\<open>None\<close>) or lists its entries in the order of \<^verbatim>\<open>readdirSync\<close>.
\<close>

datatype index_file = NoFile | Corrupt | IndexJson ScriptIndex

record file_system =
  outputDirExists :: bool
  outputFile :: index_file
  projectsDir :: "(string \<times> file_content) list option"

text \<open>\<^verbatim>\<open>writeFileSync\<close> into the projects directory: an entry of that name is replaced.\<close>

fun writeFile ::
  "string \<Rightarrow> file_content \<Rightarrow> (string \<times> file_content) list \<Rightarrow> (string \<times> file_content) list" where
  "writeFile path c [] = [(path, c)]"
| "writeFile path c (f # fs) = (if fst f = path then (path, c) # fs else f # writeFile path c fs)"

fun writeProjectFiles ::
  "(string \<times> Project) list \<Rightarrow> (string \<times> file_content) list \<Rightarrow> (string \<times> file_content) list" where
  "writeProjectFiles [] dir = dir"
| "writeProjectFiles ((filePath, project) # rest) dir =
     writeProjectFiles rest (writeFile filePath (Json project) dir)"

definition endsWith :: "string \<Rightarrow> string \<Rightarrow> bool" where
  "endsWith s suffix =
     (length suffix \<le> length s \<and> drop (length s - length suffix) s = suffix)"

datatype exit_code = Exit1

record run_result =
  final_state :: build_state
  index :: ScriptIndex
  fs_after :: file_system

definition initialState :: "index_file \<Rightarrow> build_state" where
  "initialState f =
     \<lparr>st_scripts = (case f of IndexJson existingIndex \<Rightarrow> scripts existingIndex | _ \<Rightarrow> fmempty),
      st_projects = (case f of IndexJson existingIndex \<Rightarrow> projects existingIndex | _ \<Rightarrow> fmempty),
      added = 0, updated = 0, unchanged = 0, lookupCount = 0,
      projectFilesToUpdate = [], projectsLogged = []\<rparr>"

text \<open>
  \<^verbatim>\<open>generateScriptIndex(dryRun)\<close>; \<open>now\<close> is \<^verbatim>\<open>new Date().toISOString()\<close> and \<open>dbPool\<close>
  the pool \<^verbatim>\<open>initDb\<close> sets up (\<open>None\<close> when it returns false). \<open>Inl Exit1\<close> is
  \<^verbatim>\<open>process.exit(1)\<close>.
\<close>

definition generateScriptIndex ::
  "bool \<Rightarrow> string \<Rightarrow> db_pool option \<Rightarrow> file_system \<Rightarrow> exit_code + run_result" where
  "generateScriptIndex dryRun now dbPool fs =
     (case projectsDir fs of
        None \<Rightarrow> Inl Exit1
      | Some entries \<Rightarrow>
          let files = filter (\<lambda>f. endsWith (fst f) ''.json'') entries;
              st = processFiles dbPool (initialState (outputFile fs)) files;
              fs1 = (if \<not> dryRun \<and> projectFilesToUpdate st \<noteq> []
                     then fs\<lparr>projectsDir := Some (writeProjectFiles (projectFilesToUpdate st) entries)\<rparr>
                     else fs);
              idx = \<lparr>metadata = \<lparr>generatedAt = now,
                                  scriptCount = fcard (fmdom (st_scripts st)),
                                  projectCount = fcard (fmdom (st_projects st))\<rparr>,
                     scripts = st_scripts st, projects = st_projects st\<rparr>;
              fs2 = (if dryRun then fs1
                     else fs1\<lparr>outputDirExists := True, outputFile := IndexJson idx\<rparr>)
          in Inr \<lparr>final_state = st, index = idx, fs_after = fs2\<rparr>)"

subsection \<open>Notions used to state the properties\<close>

text \<open>
  \<open>plutusPrefix s d\<close>: the string \<open>s\<close> begins with a match of \<^verbatim>\<open>/PlutusV(\d)/i\<close> whose
  captured digit is \<open>d\<close>: the seven letters of \<^verbatim>\<open>PlutusV\<close>, each in either case, then
  one of the ten decimal digits. A match of the pattern in \<open>t\<close> at position \<open>i\<close> is
  \<open>plutusPrefix (drop i t) d\<close>.
\<close>

definition plutusPrefix :: "string \<Rightarrow> char \<Rightarrow> bool" where
  "plutusPrefix s d =
     (\<exists>w rest. s = w @ d # rest \<and>
        list_all2 (\<lambda>c variants. c \<in> set variants) w
          [''pP'', ''lL'', ''uU'', ''tT'', ''uU'', ''sS'', ''vV''] \<and>
        d \<in> set ''0123456789'')"

text \<open>
  The raw classification a lookup obtains: \<^verbatim>\<open>result.rows[0].type\<close>, and none when there
  is no pool, the query throws or no row comes back.
\<close>

definition rawClassification :: "db_pool option \<Rightarrow> string \<Rightarrow> string option" where
  "rawClassification dbPool hash =
     (case dbPool of
        None \<Rightarrow> None
      | Some query \<Rightarrow>
          (case query hash of
             QueryThrows \<Rightarrow> None
           | QueryRows [] \<Rightarrow> None
           | QueryRows (dbType # _) \<Rightarrow> Some dbType))"

subsection \<open>Example inputs\<close>

definition exampleScript :: ProjectScript where
  "exampleScript =
     \<lparr>ps_name = ''Pool'', scriptHash = ''AB12'', ps_purpose = Some ''SPEND'',
      ps_type = Some ''NATIVE'', ps_plutusVersion = Some 0\<rparr>"

definition exampleHalfScript :: ProjectScript where
  "exampleHalfScript =
     \<lparr>ps_name = ''Pool'', scriptHash = ''AB12'', ps_purpose = Some ''SPEND'',
      ps_type = None, ps_plutusVersion = Some 0\<rparr>"

definition examplePrior :: ScriptEntry where
  "examplePrior =
     \<lparr>projectId = ''demo'', se_name = ''Pool'', se_purpose = Some ''SPEND'',
      se_type = Some ''PLUTUS'', se_plutusVersion = Some 2\<rparr>"

definition exampleState :: build_state where
  "exampleState = (initialState NoFile)\<lparr>st_scripts := fmupd ''ab12'' examplePrior fmempty\<rparr>"

definition exampleDb :: db_pool where
  "exampleDb hash = QueryRows [''plutusV2'']"

definition exampleOther :: ScriptEntry where
  "exampleOther =
     \<lparr>projectId = ''old'', se_name = ''Vault'', se_purpose = None,
      se_type = None, se_plutusVersion = None\<rparr>"

definition exampleIndex :: ScriptIndex where
  "exampleIndex =
     \<lparr>metadata = \<lparr>generatedAt = ''2025-01-01'', scriptCount = 2, projectCount = 0\<rparr>,
      scripts = fmupd ''ab12'' examplePrior (fmupd ''ffff'' exampleOther fmempty),
      projects = fmempty\<rparr>"

definition exampleProject :: Project where
  "exampleProject =
     \<lparr>p_label = Some ''Demo'', projectName = None, p_category = Some ''DEFI'',
      p_subCategory = None, link_website = None, p_scripts = Some [exampleHalfScript]\<rparr>"

definition exampleFs :: file_system where
  "exampleFs =
     \<lparr>outputDirExists = True, outputFile = IndexJson exampleIndex,
      projectsDir = Some [(''demo.json'', Json exampleProject), (''notes.txt'', Unreadable)]\<rparr>"

subsection \<open>Keys and project ids of a pass\<close>

text \<open>The scripts of a project record: none when \<^verbatim>\<open>scripts\<close> is absent.\<close>

definition scriptsOf :: "Project \<Rightarrow> ProjectScript list" where
  "scriptsOf project = (case p_scripts project of None \<Rightarrow> [] | Some ss \<Rightarrow> ss)"

text \<open>The keys the loop over a list of scripts looks at: the lower-cased non-empty hashes.\<close>

definition scriptKeys :: "ProjectScript list \<Rightarrow> string list" where
  "scriptKeys ss = map (\<lambda>s. toLowerCase (scriptHash s)) (filter (\<lambda>s. scriptHash s \<noteq> []) ss)"

text \<open>The project id the pass derives for a directory entry, if it processes the entry.\<close>

definition projectIdOf :: "string \<times> file_content \<Rightarrow> string option" where
  "projectIdOf file =
     (case snd file of
        Unreadable \<Rightarrow> None
      | Json project \<Rightarrow> map_option toKebabCase (projectLabelOf project))"

definition fileKeys :: "string \<times> file_content \<Rightarrow> string list" where
  "fileKeys file =
     (case snd file of
        Unreadable \<Rightarrow> []
      | Json project \<Rightarrow>
          (case projectLabelOf project of
             None \<Rightarrow> []
           | Some projectLabel \<Rightarrow> scriptKeys (scriptsOf project)))"

definition passKeys :: "(string \<times> file_content) list \<Rightarrow> string list" where
  "passKeys files = concat (map fileKeys files)"

text \<open>The files a run processes, and the keys its script records produce.\<close>

definition projectFiles :: "file_system \<Rightarrow> (string \<times> file_content) list" where
  "projectFiles fs =
     (case projectsDir fs of
        None \<Rightarrow> []
      | Some entries \<Rightarrow> filter (\<lambda>f. endsWith (fst f) ''.json'') entries)"

definition producedKeys :: "file_system \<Rightarrow> string list" where
  "producedKeys fs = passKeys (projectFiles fs)"

definition collisionFs :: file_system where
  "collisionFs =
     \<lparr>outputDirExists = False, outputFile = NoFile,
      projectsDir = Some
        [(''a.json'', Json \<lparr>p_label = Some ''Foo Bar'', projectName = None,
                             p_category = Some ''DEFI'', p_subCategory = Some ''DEX'',
                             link_website = Some ''https://foo.example'', p_scripts = None\<rparr>),
         (''b.json'', Json \<lparr>p_label = Some ''foo-bar'', projectName = None,
                             p_category = None, p_subCategory = None,
                             link_website = None, p_scripts = None\<rparr>)]\<rparr>"

definition legacyProject :: Project where
  "legacyProject =
     \<lparr>p_label = None, projectName = Some ''LegacyApp_ v2 (beta)!'', p_category = Some ''DEFI'',
      p_subCategory = None, link_website = None, p_scripts = None\<rparr>"

definition constructorProject :: Project where
  "constructorProject =
     \<lparr>p_label = Some ''Constructor'', projectName = None, p_category = Some ''GENERIC'',
      p_subCategory = None, link_website = None, p_scripts = None\<rparr>"

definition legacyFs :: file_system where
  "legacyFs =
     \<lparr>outputDirExists = True,
      outputFile = IndexJson
        \<lparr>metadata = \<lparr>generatedAt = ''2025-01-01'', scriptCount = 0, projectCount = 1\<rparr>,
         scripts = fmempty,
         projects = fmupd ''legacy-app-v2-beta''
           \<lparr>pe_label = ''Old name'', pe_category = ''GAMING'', pe_subCategory = Some ''NFT'',
            pe_link = Some ''https://old.example''\<rparr> fmempty\<rparr>,
      projectsDir = Some [(''legacy.json'', Json legacyProject),
                          (''ctor.json'', Json constructorProject)]\<rparr>"

definition longHash :: string where
  "longHash = replicate 112 (CHR ''A'')"

definition longFs :: file_system where
  "longFs =
     \<lparr>outputDirExists = False, outputFile = NoFile,
      projectsDir = Some
        [(''long.json'', Json \<lparr>p_label = Some ''Long'', projectName = None,
            p_category = Some ''DEFI'', p_subCategory = None, link_website = None,
            p_scripts = Some [\<lparr>ps_name = ''Address'', scriptHash = longHash,
                               ps_purpose = Some ''SPEND'', ps_type = Some ''PLUTUS'',
                               ps_plutusVersion = Some 2\<rparr>]\<rparr>)]\<rparr>"

definition duplicateFs :: file_system where
  "duplicateFs =
     \<lparr>outputDirExists = False, outputFile = NoFile,
      projectsDir = Some
        [(''twice.json'', Json \<lparr>p_label = Some ''Twice'', projectName = None,
            p_category = Some ''DEFI'', p_subCategory = None, link_website = None,
            p_scripts = Some [\<lparr>ps_name = ''Pool'', scriptHash = ''ab12'',
                               ps_purpose = Some ''SPEND'', ps_type = Some ''PLUTUS'',
                               ps_plutusVersion = Some 2\<rparr>,
                              \<lparr>ps_name = ''Order'', scriptHash = ''AB12'',
                               ps_purpose = Some ''SPEND'', ps_type = Some ''PLUTUS'',
                               ps_plutusVersion = Some 2\<rparr>]\<rparr>)]\<rparr>"

subsection \<open>Records a pass leaves alone\<close>

text \<open>
  A script record is settled for a scripts map when the map already holds, at the
  record's key, the entry the loop body would build for it; a file is settled when
  all the script records the pass reads from it are.
\<close>

definition scriptSettled ::
  "db_pool option \<Rightarrow> string \<Rightarrow> (string, ScriptEntry) fmap \<Rightarrow> ProjectScript \<Rightarrow> bool" where
  "scriptSettled dbPool pid m script =
     (scriptHash script = [] \<or>
      fmlookup m (toLowerCase (scriptHash script)) =
        Some (newEntryOf pid script
                (resolve dbPool (fmlookup m (toLowerCase (scriptHash script)))
                   (toLowerCase (scriptHash script)) script)))"

definition fileSettled ::
  "db_pool option \<Rightarrow> (string, ScriptEntry) fmap \<Rightarrow> string \<times> file_content \<Rightarrow> bool" where
  "fileSettled dbPool m file =
     (case snd file of
        Unreadable \<Rightarrow> True
      | Json project \<Rightarrow>
          (case projectLabelOf project of
             None \<Rightarrow> True
           | Some projectLabel \<Rightarrow>
               list_all (scriptSettled dbPool (toKebabCase projectLabel) m) (scriptsOf project)))"

section \<open>Properties\<close>

subsection \<open>Evaluation of the definitions\<close>

lemmas str_eval = toLowerCase_def toLowerChar_def char_of_def bit_Suc_0_iff isDigit_def
  isLower_def isUpper_def isSeparator_def keepSlugChars_def toKebabCase_def parseDigit_def

lemmas example_defs = exampleScript_def exampleHalfScript_def examplePrior_def exampleState_def
  exampleDb_def initialState_def

lemmas run_eval = processFile_def projectLabelOf_def orElse_def nullish_def truthy_def
  upsertProject_def getProperty_def inheritedNames_def newProjectEntry_def categoryOrUnknown_def spreadOver_def processScript_def
  resolve_def hasClassification_def fillFrom_def unresolved_def newEntryOf_def Let_def
  lookupScriptInfo_def endsWith_def

lemmas pass_eval = processFile_def projectLabelOf_def orElse_def truthy_def upsertProject_def
  getProperty_def inheritedNames_def
  newProjectEntry_def categoryOrUnknown_def spreadOver_def processScript_def resolve_def
  unresolved_def newEntryOf_def Let_def

subsection \<open>The external lookup\<close>

lemma digit_chars: "map char_of [48 :: nat, 49, 50, 51, 52, 53, 54, 55, 56, 57] = ''0123456789''"
  by (simp add: char_of_def bit_Suc_0_iff)

lemma isDigit_iff: "isDigit d \<longleftrightarrow> d \<in> set ''0123456789''"
proof
  assume "isDigit d"
  then have "48 \<le> (of_char d :: nat)" and "(of_char d :: nat) \<le> 57"
    by (simp_all add: isDigit_def)
  then have "(of_char d :: nat) \<in> set [48, 49, 50, 51, 52, 53, 54, 55, 56, 57]"
    by (simp only: list.set insert_iff empty_iff) arith
  then have "char_of (of_char d :: nat) \<in> set (map char_of [48 :: nat, 49, 50, 51, 52, 53, 54, 55, 56, 57])"
    unfolding set_map by (rule imageI)
  then show "d \<in> set ''0123456789''"
    by (simp only: digit_chars char_of_char)
next
  assume "d \<in> set ''0123456789''"
  then show "isDigit d"
    by (auto simp: isDigit_def)
qed

lemma digit_value:
  assumes "isDigit d"
  shows "nat (parseDigit d) < 10 \<and> parseDigit d = int (nat (parseDigit d)) \<and>
         ''0123456789'' ! nat (parseDigit d) = d"
proof -
  from assms have "d \<in> set ''0123456789''" by (simp add: isDigit_iff)
  then show ?thesis
    by (auto simp: parseDigit_def)
qed

lemma lower_letter:
  assumes "97 \<le> (of_char x :: nat)" and "(of_char x :: nat) \<le> 122"
  shows "toLowerChar c = x \<longleftrightarrow> c = x \<or> c = char_of ((of_char x :: nat) - 32)"
proof
  assume l: "toLowerChar c = x"
  show "c = x \<or> c = char_of ((of_char x :: nat) - 32)"
  proof (cases "toLowerChar c = c")
    case True
    with l show ?thesis by simp
  next
    case False
    then have "toLowerChar c = char_of ((of_char c :: nat) + 32)" and r: "(of_char c :: nat) \<le> 222"
      by (auto simp: toLowerChar_def Let_def split: if_splits)
    with l have "(of_char x :: nat) = of_char (char_of ((of_char c :: nat) + 32) :: char)"
      by simp
    also have "\<dots> = (of_char c :: nat) + 32"
      using r by simp
    finally have "(of_char c :: nat) = of_char x - 32" by simp
    then have "char_of (of_char c :: nat) = (char_of ((of_char x :: nat) - 32) :: char)"
      by simp
    then show ?thesis by simp
  qed
next
  assume "c = x \<or> c = char_of ((of_char x :: nat) - 32)"
  then show "toLowerChar c = x"
  proof
    assume "c = x"
    with assms show ?thesis by (simp add: toLowerChar_def Let_def)
  next
    assume c: "c = char_of ((of_char x :: nat) - 32)"
    from assms have n: "(of_char c :: nat) = of_char x - 32"
      unfolding c by simp
    with assms have "65 \<le> (of_char c :: nat)" "(of_char c :: nat) \<le> 90" by simp_all
    then have "toLowerChar c = char_of ((of_char c :: nat) + 32)"
      by (simp add: toLowerChar_def Let_def)
    also have "\<dots> = char_of (of_char x :: nat)"
      using n assms by simp
    finally show ?thesis by simp
  qed
qed

lemma lower_plutusv:
  "toLowerChar c = CHR ''p'' \<longleftrightarrow> c \<in> set ''pP''"
  "toLowerChar c = CHR ''l'' \<longleftrightarrow> c \<in> set ''lL''"
  "toLowerChar c = CHR ''u'' \<longleftrightarrow> c \<in> set ''uU''"
  "toLowerChar c = CHR ''t'' \<longleftrightarrow> c \<in> set ''tT''"
  "toLowerChar c = CHR ''s'' \<longleftrightarrow> c \<in> set ''sS''"
  "toLowerChar c = CHR ''v'' \<longleftrightarrow> c \<in> set ''vV''"
  by (simp_all add: lower_letter char_of_def bit_Suc_0_iff)

lemma plutus_word_iff:
  "toLowerCase w = ''plutusv'' \<longleftrightarrow>
   list_all2 (\<lambda>c variants. c \<in> set variants) w [''pP'', ''lL'', ''uU'', ''tT'', ''uU'', ''sS'', ''vV'']"
  unfolding toLowerCase_def
  by (simp only: map_eq_Cons_conv list_all2_Cons2 lower_plutusv list_all2_Nil2 map_is_Nil_conv)

lemma plutusPrefix_code:
  "plutusPrefix s d = (\<exists>w rest. s = w @ d # rest \<and> toLowerCase w = ''plutusv'' \<and> isDigit d)"
  by (simp only: plutusPrefix_def plutus_word_iff isDigit_iff)

lemma plutusPrefix_iff:
  "plutusPrefix s d \<longleftrightarrow>
     (\<exists>rest. drop 7 s = d # rest) \<and> toLowerCase (take 7 s) = ''plutusv'' \<and> isDigit d"
proof
  assume "plutusPrefix s d"
  then obtain w rest where s: "s = w @ d # rest" and w: "toLowerCase w = ''plutusv''"
    and d: "isDigit d"
    by (auto simp: plutusPrefix_code)
  from w have "length (toLowerCase w) = 7" by simp
  then have "length w = 7" by (simp add: toLowerCase_def)
  with s w d show "(\<exists>rest. drop 7 s = d # rest) \<and> toLowerCase (take 7 s) = ''plutusv'' \<and> isDigit d"
    by simp
next
  assume r: "(\<exists>rest. drop 7 s = d # rest) \<and> toLowerCase (take 7 s) = ''plutusv'' \<and> isDigit d"
  then obtain rest where "drop 7 s = d # rest" by blast
  then have "s = take 7 s @ d # rest"
    by (metis append_take_drop_id)
  with r show "plutusPrefix s d"
    unfolding plutusPrefix_code by blast
qed

lemma matchPlutusV_step:
  "matchPlutusV (c # cs) =
     (if \<exists>d. plutusPrefix (c # cs) d then Some (hd (drop 7 (c # cs))) else matchPlutusV cs)"
proof (cases "drop 7 (c # cs)")
  case Nil
  then show ?thesis by (simp add: plutusPrefix_iff del: drop_Cons_numeral)
next
  case (Cons d rest)
  then show ?thesis
    by (auto simp add: plutusPrefix_iff simp del: drop_Cons_numeral take_Cons_numeral matchPlutusV.simps(2) simp add: matchPlutusV.simps(2)[of c cs])
qed

lemma plutusPrefix_digit: "plutusPrefix s d \<Longrightarrow> d = hd (drop 7 s)"
  by (auto simp: plutusPrefix_iff)

lemma matchPlutusV_None: "matchPlutusV s = None \<longleftrightarrow> (\<forall>i d. \<not> plutusPrefix (drop i s) d)"
proof (induction s)
  case Nil
  show ?case by (simp add: plutusPrefix_code)
next
  case (Cons c cs)
  have all: "(\<forall>i d. \<not> plutusPrefix (drop i (c # cs)) d) \<longleftrightarrow>
        ((\<forall>d. \<not> plutusPrefix (c # cs) d) \<and> (\<forall>i d. \<not> plutusPrefix (drop i cs) d))"
  proof
    assume none: "\<forall>i d. \<not> plutusPrefix (drop i (c # cs)) d"
    have "\<not> plutusPrefix (drop k cs) d" for k d
      using none[rule_format, of "Suc k" d] by simp
    moreover have "\<not> plutusPrefix (c # cs) d" for d
      using none[rule_format, of 0 d] by simp
    ultimately show "(\<forall>d. \<not> plutusPrefix (c # cs) d) \<and> (\<forall>i d. \<not> plutusPrefix (drop i cs) d)"
      by blast
  next
    assume split: "(\<forall>d. \<not> plutusPrefix (c # cs) d) \<and> (\<forall>i d. \<not> plutusPrefix (drop i cs) d)"
    show "\<forall>i d. \<not> plutusPrefix (drop i (c # cs)) d"
    proof (intro allI)
      fix i d
      show "\<not> plutusPrefix (drop i (c # cs)) d"
        using split by (cases i) simp_all
    qed
  qed
  show ?case
    unfolding all matchPlutusV_step using Cons.IH by simp
qed

lemma matchPlutusV_Some:
  "plutusPrefix (drop i s) d \<Longrightarrow> \<forall>j<i. \<forall>d'. \<not> plutusPrefix (drop j s) d' \<Longrightarrow>
   matchPlutusV s = Some d"
proof (induction s arbitrary: i)
  case Nil
  then show ?case by (simp add: plutusPrefix_code)
next
  case (Cons c cs)
  show ?case
  proof (cases i)
    case 0
    with Cons.prems(1) have m: "plutusPrefix (c # cs) d" by simp
    then show ?thesis
      unfolding matchPlutusV_step using plutusPrefix_digit[OF m] by auto
  next
    case (Suc k)
    with Cons.prems(1) have k: "plutusPrefix (drop k cs) d" by simp
    from Suc Cons.prems(2) have first: "\<forall>d'. \<not> plutusPrefix (c # cs) d'"
      by (metis drop0 zero_less_Suc)
    have before: "\<forall>j<k. \<forall>d'. \<not> plutusPrefix (drop j cs) d'"
    proof (intro allI impI)
      fix j d' assume "j < k"
      then have "Suc j < i" using Suc by simp
      with Cons.prems(2) have "\<not> plutusPrefix (drop (Suc j) (c # cs)) d'" by blast
      then show "\<not> plutusPrefix (drop j cs) d'" by simp
    qed
    have "matchPlutusV (c # cs) = matchPlutusV cs"
      using first by (auto simp: matchPlutusV_step simp del: matchPlutusV.simps)
    with Cons.IH[OF k before] show ?thesis by simp
  qed
qed

lemma parseDigit_range: "isDigit d \<Longrightarrow> 0 \<le> parseDigit d \<and> parseDigit d \<le> 9"
  by (auto simp: isDigit_def parseDigit_def)

lemma lookupScriptInfo_cases:
  "(rawClassification dbPool hash = Some ''timelock'' \<longrightarrow>
      lookupScriptInfo dbPool hash = Some \<lparr>info_type = ''NATIVE'', info_plutusVersion = 0\<rparr>) \<and>
   (\<forall>t i d. rawClassification dbPool hash = Some t \<and> t \<noteq> ''timelock'' \<and>
        plutusPrefix (drop i t) d \<and> (\<forall>j<i. \<forall>d'. \<not> plutusPrefix (drop j t) d') \<longrightarrow>
      lookupScriptInfo dbPool hash =
        Some \<lparr>info_type = ''PLUTUS'', info_plutusVersion = parseDigit d\<rparr> \<and>
      0 \<le> parseDigit d \<and> parseDigit d \<le> 9) \<and>
   (rawClassification dbPool hash = None \<or>
    (\<exists>t. rawClassification dbPool hash = Some t \<and> t \<noteq> ''timelock'' \<and>
         (\<forall>i d. \<not> plutusPrefix (drop i t) d)) \<longrightarrow>
      lookupScriptInfo dbPool hash = None)"
proof (intro conjI allI impI)
  assume "rawClassification dbPool hash = Some ''timelock''"
  then show "lookupScriptInfo dbPool hash = Some \<lparr>info_type = ''NATIVE'', info_plutusVersion = 0\<rparr>"
    by (auto simp: rawClassification_def lookupScriptInfo_def
        split: option.splits query_result.splits list.splits)
next
  fix t i d
  assume a: "rawClassification dbPool hash = Some t \<and> t \<noteq> ''timelock'' \<and>
        plutusPrefix (drop i t) d \<and> (\<forall>j<i. \<forall>d'. \<not> plutusPrefix (drop j t) d')"
  then have m: "matchPlutusV t = Some d"
    using matchPlutusV_Some by blast
  from a show "lookupScriptInfo dbPool hash =
        Some \<lparr>info_type = ''PLUTUS'', info_plutusVersion = parseDigit d\<rparr>"
    by (auto simp: rawClassification_def lookupScriptInfo_def m
        split: option.splits query_result.splits list.splits)
  from a have "isDigit d" by (auto simp: plutusPrefix_code)
  then show "0 \<le> parseDigit d" "parseDigit d \<le> 9"
    using parseDigit_range by auto
next
  assume a: "rawClassification dbPool hash = None \<or>
    (\<exists>t. rawClassification dbPool hash = Some t \<and> t \<noteq> ''timelock'' \<and>
         (\<forall>i d. \<not> plutusPrefix (drop i t) d))"
  then show "lookupScriptInfo dbPool hash = None"
  proof
    assume "rawClassification dbPool hash = None"
    then show ?thesis
      by (auto simp: rawClassification_def lookupScriptInfo_def
          split: option.splits query_result.splits list.splits)
  next
    assume "\<exists>t. rawClassification dbPool hash = Some t \<and> t \<noteq> ''timelock'' \<and>
         (\<forall>i d. \<not> plutusPrefix (drop i t) d)"
    then obtain t where t: "rawClassification dbPool hash = Some t" "t \<noteq> ''timelock''"
      and "\<forall>i d. \<not> plutusPrefix (drop i t) d" by blast
    then have "matchPlutusV t = None" by (simp add: matchPlutusV_None)
    with t show ?thesis
      by (auto simp: rawClassification_def lookupScriptInfo_def
          split: option.splits query_result.splits list.splits)
  qed
qed

text \<open>
  C6 (outcome of the external lookup). For every hash queried: when the raw classification
  is the sentinel \<^verbatim>\<open>timelock\<close> the lookup returns type NATIVE with plutusVersion 0; when
  it is another string in which the pattern \<^verbatim>\<open>PlutusV<digit>\<close> (in any case) matches, the
  lookup returns type PLUTUS and as plutusVersion the number \<open>n\<close> below ten whose decimal
  digit is the digit captured by the leftmost match; in every other case (no pool, a
  query that throws, no row, a string with no match) it returns nothing.
  \<open>lookupScriptInfo\<close> is a total function: no outcome of the query is an error of the
  run. When it returns nothing (and the existing entry gives no classification either)
  the resolution leaves the record and its two fields as they were.
\<close>

theorem lookupScriptInfo_outcomes:
  "(rawClassification dbPool hash = Some ''timelock'' \<longrightarrow>
      lookupScriptInfo dbPool hash = Some \<lparr>info_type = ''NATIVE'', info_plutusVersion = 0\<rparr>) \<and>
   (\<forall>t i d. rawClassification dbPool hash = Some t \<and> t \<noteq> ''timelock'' \<and>
        plutusPrefix (drop i t) d \<and> (\<forall>j<i. \<forall>d'. \<not> plutusPrefix (drop j t) d') \<longrightarrow>
      (\<exists>n<10. lookupScriptInfo dbPool hash =
                Some \<lparr>info_type = ''PLUTUS'', info_plutusVersion = int n\<rparr> \<and>
              ''0123456789'' ! n = d)) \<and>
   (rawClassification dbPool hash = None \<or>
    (\<exists>t. rawClassification dbPool hash = Some t \<and> t \<noteq> ''timelock'' \<and>
         (\<forall>i d. \<not> plutusPrefix (drop i t) d)) \<longrightarrow>
      lookupScriptInfo dbPool hash = None) \<and>
   (lookupScriptInfo dbPool hash = None \<and> \<not> hasClassification existing \<longrightarrow>
      r_script (resolve dbPool existing hash script) = script \<and>
      r_type (resolve dbPool existing hash script) = ps_type script \<and>
      r_plutusVersion (resolve dbPool existing hash script) = ps_plutusVersion script)"
proof -
  note cases = lookupScriptInfo_cases[of dbPool hash]
  have plutus: "\<exists>n<10. lookupScriptInfo dbPool hash =
                Some \<lparr>info_type = ''PLUTUS'', info_plutusVersion = int n\<rparr> \<and>
              ''0123456789'' ! n = d"
    if m: "rawClassification dbPool hash = Some t \<and> t \<noteq> ''timelock'' \<and>
        plutusPrefix (drop i t) d \<and> (\<forall>j<i. \<forall>d'. \<not> plutusPrefix (drop j t) d')" for t i d
  proof -
    from m have "isDigit d" by (auto simp: plutusPrefix_code)
    note v = digit_value[OF this]
    from cases m have "lookupScriptInfo dbPool hash =
        Some \<lparr>info_type = ''PLUTUS'', info_plutusVersion = parseDigit d\<rparr>"
      by blast
    with v have "lookupScriptInfo dbPool hash =
        Some \<lparr>info_type = ''PLUTUS'', info_plutusVersion = int (nat (parseDigit d))\<rparr>"
      by simp
    with v show ?thesis by blast
  qed
  have kept: "r_script (resolve dbPool existing hash script) = script \<and>
      r_type (resolve dbPool existing hash script) = ps_type script \<and>
      r_plutusVersion (resolve dbPool existing hash script) = ps_plutusVersion script"
    if "lookupScriptInfo dbPool hash = None" and "\<not> hasClassification existing"
    using that by (simp add: resolve_def unresolved_def)
  from cases have native: "rawClassification dbPool hash = Some ''timelock'' \<longrightarrow>
      lookupScriptInfo dbPool hash = Some \<lparr>info_type = ''NATIVE'', info_plutusVersion = 0\<rparr>"
    by blast
  from cases have none: "rawClassification dbPool hash = None \<or>
    (\<exists>t. rawClassification dbPool hash = Some t \<and> t \<noteq> ''timelock'' \<and>
         (\<forall>i d. \<not> plutusPrefix (drop i t) d)) \<longrightarrow>
      lookupScriptInfo dbPool hash = None"
    by blast
  from native plutus none kept show ?thesis by blast
qed

text \<open>
  The database answers \<^verbatim>\<open>plutusV2\<close>, \<^verbatim>\<open>PLUTUSv3x\<close> after a prefix, \<^verbatim>\<open>timelock\<close>, or throws.
\<close>

theorem lookupScriptInfo_outcomes_witness:
  "lookupScriptInfo (Some exampleDb) ''ab12'' =
     Some \<lparr>info_type = ''PLUTUS'', info_plutusVersion = 2\<rparr> \<and>
   lookupScriptInfo (Some (\<lambda>hash. QueryRows [''a PLUTUSv3x''])) ''ab12'' =
     Some \<lparr>info_type = ''PLUTUS'', info_plutusVersion = 3\<rparr> \<and>
   lookupScriptInfo (Some (\<lambda>hash. QueryRows [''timelock''])) ''ab12'' =
     Some \<lparr>info_type = ''NATIVE'', info_plutusVersion = 0\<rparr> \<and>
   lookupScriptInfo (Some (\<lambda>hash. QueryThrows)) ''ab12'' = None"
proof -
  have digits: "n = 2" if "n < 10" and "''0123456789'' ! n = CHR ''2''" for n :: nat
  proof -
    from that(1) have "n \<in> set [0, 1, 2, 3, 4, 5, 6, 7, 8, 9]"
      by (simp only: list.set insert_iff empty_iff) arith
    with that(2) show ?thesis by auto
  qed
  have digits3: "n = 3" if "n < 10" and "''0123456789'' ! n = CHR ''3''" for n :: nat
  proof -
    from that(1) have "n \<in> set [0, 1, 2, 3, 4, 5, 6, 7, 8, 9]"
      by (simp only: list.set insert_iff empty_iff) arith
    with that(2) show ?thesis by auto
  qed
  have raw: "rawClassification (Some exampleDb) ''ab12'' = Some ''plutusV2''"
    by (simp add: rawClassification_def exampleDb_def)
  have pre: "plutusPrefix (drop 0 ''plutusV2'') (CHR ''2'')"
    by (simp add: plutusPrefix_iff str_eval)
  have first: "\<forall>j<0::nat. \<forall>d'. \<not> plutusPrefix (drop j ''plutusV2'') d'"
    by simp
  have a: "lookupScriptInfo (Some exampleDb) ''ab12'' =
     Some \<lparr>info_type = ''PLUTUS'', info_plutusVersion = 2\<rparr>"
  proof -
    from lookupScriptInfo_outcomes[of "Some exampleDb" "''ab12''"]
    have "\<forall>t i d. rawClassification (Some exampleDb) ''ab12'' = Some t \<and> t \<noteq> ''timelock'' \<and>
        plutusPrefix (drop i t) d \<and> (\<forall>j<i. \<forall>d'. \<not> plutusPrefix (drop j t) d') \<longrightarrow>
      (\<exists>n<10. lookupScriptInfo (Some exampleDb) ''ab12'' =
                Some \<lparr>info_type = ''PLUTUS'', info_plutusVersion = int n\<rparr> \<and>
              ''0123456789'' ! n = d)"
      by blast
    from this[rule_format, of "''plutusV2''" 0 "CHR ''2''"] raw pre first
    obtain n where "n < 10" "''0123456789'' ! n = CHR ''2''"
      and "lookupScriptInfo (Some exampleDb) ''ab12'' =
                Some \<lparr>info_type = ''PLUTUS'', info_plutusVersion = int n\<rparr>"
      by auto
    with digits show ?thesis by simp
  qed
  let ?db3 = "Some (\<lambda>hash :: string. QueryRows [''a PLUTUSv3x''])"
  have raw3: "rawClassification ?db3 ''ab12'' = Some ''a PLUTUSv3x''"
    by (simp add: rawClassification_def)
  have pre3: "plutusPrefix (drop 2 ''a PLUTUSv3x'') (CHR ''3'')"
    by (simp add: plutusPrefix_iff str_eval)
  have first3: "\<forall>j<2::nat. \<forall>d'. \<not> plutusPrefix (drop j ''a PLUTUSv3x'') d'"
  proof (intro allI impI)
    fix j :: nat and d'
    assume "j < 2"
    then have "j = 0 \<or> j = 1" by arith
    then show "\<not> plutusPrefix (drop j ''a PLUTUSv3x'') d'"
      by (auto simp: plutusPrefix_iff str_eval)
  qed
  have b: "lookupScriptInfo ?db3 ''ab12'' =
     Some \<lparr>info_type = ''PLUTUS'', info_plutusVersion = 3\<rparr>"
  proof -
    from lookupScriptInfo_outcomes[of ?db3 "''ab12''"]
    have "\<forall>t i d. rawClassification ?db3 ''ab12'' = Some t \<and> t \<noteq> ''timelock'' \<and>
        plutusPrefix (drop i t) d \<and> (\<forall>j<i. \<forall>d'. \<not> plutusPrefix (drop j t) d') \<longrightarrow>
      (\<exists>n<10. lookupScriptInfo ?db3 ''ab12'' =
                Some \<lparr>info_type = ''PLUTUS'', info_plutusVersion = int n\<rparr> \<and>
              ''0123456789'' ! n = d)"
      by blast
    from this[rule_format, of "''a PLUTUSv3x''" 2 "CHR ''3''"] raw3 pre3 first3
    obtain n where "n < 10" "''0123456789'' ! n = CHR ''3''"
      and "lookupScriptInfo ?db3 ''ab12'' =
                Some \<lparr>info_type = ''PLUTUS'', info_plutusVersion = int n\<rparr>"
      by auto
    with digits3 show ?thesis by simp
  qed
  have c: "lookupScriptInfo (Some (\<lambda>hash. QueryRows [''timelock''])) ''ab12'' =
     Some \<lparr>info_type = ''NATIVE'', info_plutusVersion = 0\<rparr>"
    using lookupScriptInfo_outcomes[of "Some (\<lambda>hash. QueryRows [''timelock''])" "''ab12''"]
    by (simp add: rawClassification_def)
  have d: "lookupScriptInfo (Some (\<lambda>hash. QueryThrows)) ''ab12'' = None"
    using lookupScriptInfo_outcomes[of "Some (\<lambda>hash. QueryThrows)" "''ab12''"]
    by (simp add: rawClassification_def)
  from a b c d show ?thesis by simp
qed

subsection \<open>Resolution and classification of one script record\<close>

lemma ScriptEntry_eq_iff:
  "(e :: ScriptEntry) = e' \<longleftrightarrow>
     projectId e = projectId e' \<and> se_name e = se_name e' \<and> se_purpose e = se_purpose e' \<and>
     se_type e = se_type e' \<and> se_plutusVersion e = se_plutusVersion e'"
  by (cases e, cases e') auto

lemma resolve_present:
  assumes "truthy (ps_type script)" and "ps_plutusVersion script \<noteq> None"
  shows "resolve dbPool existing hash script = unresolved 0 script"
  using assms by (auto simp: resolve_def)

text \<open>
  C5 (resolver short-circuit). A script record that carries both a type (a non-empty
  string, as JavaScript's truthiness reads it) and a plutusVersion is not resolved: no
  lookup is counted, nothing is copied from the existing index entry (the locals are the
  record's own fields), the record comes back unchanged, \<^verbatim>\<open>projectModified\<close> is not set
  by it, and the loop body behaves as it does with no database at all.
\<close>

theorem resolver_short_circuit:
  assumes t: "truthy (ps_type script)" and v: "ps_plutusVersion script \<noteq> None"
  shows "r_lookups (resolve dbPool existing hash script) = 0 \<and>
         r_script (resolve dbPool existing hash script) = script \<and>
         \<not> r_modified (resolve dbPool existing hash script) \<and>
         r_type (resolve dbPool existing hash script) = ps_type script \<and>
         r_plutusVersion (resolve dbPool existing hash script) = ps_plutusVersion script \<and>
         fst (snd (processScript dbPool pid st script)) = script \<and>
         \<not> snd (snd (processScript dbPool pid st script)) \<and>
         lookupCount (fst (processScript dbPool pid st script)) = lookupCount st \<and>
         processScript dbPool pid st script = processScript None pid st script"
proof -
  have r: "resolve dbPool existing hash script = unresolved 0 script" for dbPool existing hash
    using t v by (rule resolve_present)
  show ?thesis
    by (simp add: r unresolved_def processScript_def Let_def split: option.splits)
qed

theorem resolver_short_circuit_witness:
  "truthy (ps_type exampleScript) \<and> ps_plutusVersion exampleScript \<noteq> None \<and>
   r_lookups (resolve (Some exampleDb) (Some examplePrior) ''ab12'' exampleScript) = 0 \<and>
   fst (snd (processScript (Some exampleDb) ''demo'' exampleState exampleScript)) = exampleScript \<and>
   lookupCount (fst (processScript (Some exampleDb) ''demo'' exampleState exampleScript)) = 0"
proof -
  have t: "truthy (ps_type exampleScript)"
    by (simp add: exampleScript_def truthy_def)
  have v: "ps_plutusVersion exampleScript \<noteq> None"
    by (simp add: exampleScript_def)
  have l: "lookupCount exampleState = 0"
    by (simp add: example_defs)
  note T = resolver_short_circuit[OF t v, where dbPool = "Some exampleDb"
      and existing = "Some examplePrior" and hash = "''ab12''" and pid = "''demo''"
      and st = exampleState]
  from T have a: "r_lookups (resolve (Some exampleDb) (Some examplePrior) ''ab12'' exampleScript) = 0"
    by blast
  from T have b: "fst (snd (processScript (Some exampleDb) ''demo'' exampleState exampleScript)) =
      exampleScript"
    by blast
  from T have c: "lookupCount (fst (processScript (Some exampleDb) ''demo'' exampleState exampleScript)) =
      lookupCount exampleState"
    by blast
  show ?thesis
    by (intro conjI t v a b) (simp only: c l)
qed

lemma fillFrom_type:
  "truthy (ps_type script) \<Longrightarrow>
     r_type (fillFrom srcType srcVersion n script) = ps_type script \<and>
     ps_type (r_script (fillFrom srcType srcVersion n script)) = ps_type script"
  by (simp add: fillFrom_def orElse_def Let_def)

lemma fillFrom_version:
  "ps_plutusVersion script = Some v \<Longrightarrow>
     r_plutusVersion (fillFrom srcType srcVersion n script) = Some v \<and>
     ps_plutusVersion (r_script (fillFrom srcType srcVersion n script)) = Some v"
  by (simp add: fillFrom_def nullish_def Let_def)

lemma fillFrom_frame:
  "ps_name (r_script (fillFrom srcType srcVersion n script)) = ps_name script \<and>
   scriptHash (r_script (fillFrom srcType srcVersion n script)) = scriptHash script \<and>
   ps_purpose (r_script (fillFrom srcType srcVersion n script)) = ps_purpose script"
  by (simp add: fillFrom_def Let_def)

lemma resolve_cases:
  "(\<exists>n. resolve dbPool existing hash script = unresolved n script) \<or>
   (\<exists>srcType srcVersion n. resolve dbPool existing hash script = fillFrom srcType srcVersion n script)"
  unfolding resolve_def by (simp split: option.splits) blast

lemma resolve_type:
  "truthy (ps_type script) \<Longrightarrow>
     r_type (resolve dbPool existing hash script) = ps_type script \<and>
     ps_type (r_script (resolve dbPool existing hash script)) = ps_type script"
  using resolve_cases[of dbPool existing hash script]
  by (elim disjE exE; simp add: fillFrom_type unresolved_def)

lemma resolve_version:
  "ps_plutusVersion script = Some v \<Longrightarrow>
     r_plutusVersion (resolve dbPool existing hash script) = Some v \<and>
     ps_plutusVersion (r_script (resolve dbPool existing hash script)) = Some v"
  using resolve_cases[of dbPool existing hash script]
  by (elim disjE exE; simp add: fillFrom_version unresolved_def)

lemma resolve_frame:
  "ps_name (r_script (resolve dbPool existing hash script)) = ps_name script \<and>
   scriptHash (r_script (resolve dbPool existing hash script)) = scriptHash script \<and>
   ps_purpose (r_script (resolve dbPool existing hash script)) = ps_purpose script"
  using resolve_cases[of dbPool existing hash script]
  by (elim disjE exE; simp add: fillFrom_frame unresolved_def)

text \<open>What one pass of the loop body does, in terms of the candidate entry.\<close>

lemma processScript_result:
  assumes "scriptHash script \<noteq> []"
  shows "processScript dbPool pid st script =
     (let key = toLowerCase (scriptHash script);
          prior = fmlookup (st_scripts st) key;
          r = resolve dbPool prior key script;
          candidate = newEntryOf pid script r;
          st1 = st\<lparr>lookupCount := lookupCount st + r_lookups r\<rparr>
      in (if prior = None
          then st1\<lparr>st_scripts := fmupd key candidate (st_scripts st), added := added st + 1\<rparr>
          else if prior \<noteq> Some candidate
          then st1\<lparr>st_scripts := fmupd key candidate (st_scripts st), updated := updated st + 1\<rparr>
          else st1\<lparr>unchanged := unchanged st + 1\<rparr>,
          r_script r, r_modified r))"
proof (cases "fmlookup (st_scripts st) (toLowerCase (scriptHash script))")
  case None
  with assms show ?thesis by (simp add: processScript_def Let_def)
next
  case (Some e)
  with assms show ?thesis
    by (simp add: processScript_def Let_def ScriptEntry_eq_iff[of e])
qed

lemma processScript_collapse:
  "processScript dbPool pid st script =
     (fst (processScript dbPool pid st script), fst (snd (processScript dbPool pid st script)),
      snd (snd (processScript dbPool pid st script)))"
  by simp

text \<open>
  C7 (diff classification). For a script with a non-empty hash, with \<open>key\<close> the
  lower-cased hash and \<open>candidate\<close> the entry built for it: when the map has no entry
  at \<open>key\<close> the candidate is inserted and \<open>added\<close> goes up by one; when the prior entry
  differs from the candidate in one of projectId, name, purpose, type, plutusVersion
  (an absent plutusVersion differs from every present one) the candidate overwrites it
  and \<open>updated\<close> goes up by one; when the five fields agree the map is not written and
  \<open>unchanged\<close> goes up by one. In each case the other two counters stay, so the three
  counters together go up by exactly one.
\<close>

theorem diff_classification:
  assumes hash: "scriptHash script \<noteq> []"
    and key: "key = toLowerCase (scriptHash script)"
    and cand: "candidate = newEntryOf pid script (resolve dbPool (fmlookup (st_scripts st) key) key script)"
    and res: "processScript dbPool pid st script = (st', script', m)"
  shows "(fmlookup (st_scripts st) key = None \<longrightarrow>
            st_scripts st' = fmupd key candidate (st_scripts st) \<and>
            added st' = added st + 1 \<and> updated st' = updated st \<and> unchanged st' = unchanged st) \<and>
         (\<forall>prior. fmlookup (st_scripts st) key = Some prior \<and>
            (projectId prior \<noteq> projectId candidate \<or> se_name prior \<noteq> se_name candidate \<or>
             se_purpose prior \<noteq> se_purpose candidate \<or> se_type prior \<noteq> se_type candidate \<or>
             se_plutusVersion prior \<noteq> se_plutusVersion candidate) \<longrightarrow>
            st_scripts st' = fmupd key candidate (st_scripts st) \<and>
            added st' = added st \<and> updated st' = updated st + 1 \<and> unchanged st' = unchanged st) \<and>
         (\<forall>prior. fmlookup (st_scripts st) key = Some prior \<and>
            projectId prior = projectId candidate \<and> se_name prior = se_name candidate \<and>
            se_purpose prior = se_purpose candidate \<and> se_type prior = se_type candidate \<and>
            se_plutusVersion prior = se_plutusVersion candidate \<longrightarrow>
            st_scripts st' = st_scripts st \<and>
            added st' = added st \<and> updated st' = updated st \<and> unchanged st' = unchanged st + 1) \<and>
         added st' + updated st' + unchanged st' = added st + updated st + unchanged st + 1"
proof -
  let ?prior = "fmlookup (st_scripts st) key"
  let ?st1 = "st\<lparr>lookupCount := lookupCount st +
                 r_lookups (resolve dbPool ?prior key script)\<rparr>"
  from res have st': "st' =
      (if ?prior = None
       then ?st1\<lparr>st_scripts := fmupd key candidate (st_scripts st), added := added st + 1\<rparr>
       else if ?prior \<noteq> Some candidate
       then ?st1\<lparr>st_scripts := fmupd key candidate (st_scripts st), updated := updated st + 1\<rparr>
       else ?st1\<lparr>unchanged := unchanged st + 1\<rparr>)"
    unfolding processScript_result[OF hash] key cand by (simp add: Let_def)
  have new: "?prior = None \<longrightarrow>
            st_scripts st' = fmupd key candidate (st_scripts st) \<and>
            added st' = added st + 1 \<and> updated st' = updated st \<and> unchanged st' = unchanged st"
    by (simp add: st')
  have upd: "st_scripts st' = fmupd key candidate (st_scripts st) \<and>
            added st' = added st \<and> updated st' = updated st + 1 \<and> unchanged st' = unchanged st"
    if "?prior = Some prior" and "prior \<noteq> candidate" for prior
    using that by (simp add: st')
  have same: "st_scripts st' = st_scripts st \<and>
            added st' = added st \<and> updated st' = updated st \<and> unchanged st' = unchanged st + 1"
    if "?prior = Some prior" and "prior = candidate" for prior
    using that by (simp add: st')
  have total: "added st' + updated st' + unchanged st' = added st + updated st + unchanged st + 1"
    by (simp add: st')
  show ?thesis
  proof (intro conjI allI impI)
    show "added st' + updated st' + unchanged st' = added st + updated st + unchanged st + 1"
      by (rule total)
  qed (use new upd same ScriptEntry_eq_iff in blast)+
qed

theorem diff_classification_witness:
  "fmlookup (st_scripts exampleState) ''ab12'' = Some examplePrior \<and>
   se_plutusVersion examplePrior \<noteq> Some 0 \<and>
   updated (fst (processScript None ''demo'' exampleState exampleScript)) = 1 \<and>
   added (fst (processScript None ''demo'' exampleState exampleScript)) = 0 \<and>
   unchanged (fst (processScript None ''demo'' exampleState exampleScript)) = 0 \<and>
   fmlookup (st_scripts (fst (processScript None ''demo'' exampleState exampleScript))) ''ab12'' =
     Some \<lparr>projectId = ''demo'', se_name = ''Pool'', se_purpose = Some ''SPEND'',
           se_type = Some ''NATIVE'', se_plutusVersion = Some 0\<rparr>"
proof -
  have h: "scriptHash exampleScript \<noteq> []"
    by (simp add: exampleScript_def)
  have k: "toLowerCase (scriptHash exampleScript) = ''ab12''"
    by (simp add: exampleScript_def str_eval)
  have p: "fmlookup (st_scripts exampleState) ''ab12'' = Some examplePrior"
    by (simp add: example_defs)
  have c: "newEntryOf ''demo'' exampleScript
             (resolve None (fmlookup (st_scripts exampleState) ''ab12'') ''ab12'' exampleScript) =
           \<lparr>projectId = ''demo'', se_name = ''Pool'', se_purpose = Some ''SPEND'',
            se_type = Some ''NATIVE'', se_plutusVersion = Some 0\<rparr>"
    by (simp add: newEntryOf_def resolve_def unresolved_def truthy_def exampleScript_def)
  have z: "added exampleState = 0 \<and> updated exampleState = 0 \<and> unchanged exampleState = 0"
    by (simp add: example_defs)
  note T = diff_classification[where pid = "''demo''" and dbPool = None and st = exampleState,
      OF h k[symmetric] refl processScript_collapse]
  from T have "\<forall>prior. fmlookup (st_scripts exampleState) ''ab12'' = Some prior \<and>
      se_plutusVersion prior \<noteq> Some 0 \<longrightarrow>
      st_scripts (fst (processScript None ''demo'' exampleState exampleScript)) =
        fmupd ''ab12'' \<lparr>projectId = ''demo'', se_name = ''Pool'', se_purpose = Some ''SPEND'',
            se_type = Some ''NATIVE'', se_plutusVersion = Some 0\<rparr> (st_scripts exampleState) \<and>
      added (fst (processScript None ''demo'' exampleState exampleScript)) = added exampleState \<and>
      updated (fst (processScript None ''demo'' exampleState exampleScript)) = updated exampleState + 1 \<and>
      unchanged (fst (processScript None ''demo'' exampleState exampleScript)) = unchanged exampleState"
    unfolding c by simp
  moreover have v: "se_plutusVersion examplePrior \<noteq> Some 0"
    by (simp add: examplePrior_def)
  ultimately show ?thesis using p z by simp
qed

text \<open>
  C10 (resolution never overwrites a present field). After the loop body has run for a
  script with a non-empty hash, the map holds an entry at the lower-cased hash; a type
  that was present (non-empty) on the record is the type of that entry and of the record
  as it is written back, and a plutusVersion that was present, 0 included, is the
  plutusVersion of both. Name, hash and purpose of the record are never touched.
\<close>

theorem resolution_keeps_present_fields:
  assumes hash: "scriptHash script \<noteq> []"
    and res: "processScript dbPool pid st script = (st', script', m)"
  shows "\<exists>entry. fmlookup (st_scripts st') (toLowerCase (scriptHash script)) = Some entry \<and>
           (truthy (ps_type script) \<longrightarrow>
              se_type entry = ps_type script \<and> ps_type script' = ps_type script) \<and>
           (\<forall>v. ps_plutusVersion script = Some v \<longrightarrow>
              se_plutusVersion entry = Some v \<and> ps_plutusVersion script' = Some v) \<and>
           ps_name script' = ps_name script \<and> scriptHash script' = scriptHash script \<and>
           ps_purpose script' = ps_purpose script"
proof -
  let ?key = "toLowerCase (scriptHash script)"
  let ?r = "resolve dbPool (fmlookup (st_scripts st) ?key) ?key script"
  let ?cand = "newEntryOf pid script ?r"
  from res have s': "script' = r_script ?r"
    unfolding processScript_result[OF hash] by (simp add: Let_def)
  from res have "fmlookup (st_scripts st') ?key = Some ?cand"
    unfolding processScript_result[OF hash] by (auto simp: Let_def split: if_splits)
  moreover have "truthy (ps_type script) \<longrightarrow>
              se_type ?cand = ps_type script \<and> ps_type script' = ps_type script"
    using resolve_type[of script] by (simp add: s' newEntryOf_def)
  moreover have "\<forall>v. ps_plutusVersion script = Some v \<longrightarrow>
              se_plutusVersion ?cand = Some v \<and> ps_plutusVersion script' = Some v"
    using resolve_version[of script] by (simp add: s' newEntryOf_def)
  moreover have "ps_name script' = ps_name script \<and> scriptHash script' = scriptHash script \<and>
           ps_purpose script' = ps_purpose script"
    using resolve_frame[of dbPool _ _ script] by (simp add: s')
  ultimately show ?thesis by blast
qed

theorem resolution_keeps_present_fields_witness:
  "scriptHash exampleHalfScript \<noteq> [] \<and> ps_plutusVersion exampleHalfScript = Some 0 \<and>
   fmlookup (st_scripts (fst (processScript None ''demo'' exampleState exampleHalfScript))) ''ab12'' =
     Some \<lparr>projectId = ''demo'', se_name = ''Pool'', se_purpose = Some ''SPEND'',
           se_type = Some ''PLUTUS'', se_plutusVersion = Some 0\<rparr> \<and>
   ps_plutusVersion (fst (snd (processScript None ''demo'' exampleState exampleHalfScript))) = Some 0"
proof -
  have h: "scriptHash exampleHalfScript \<noteq> []"
    by (simp add: exampleHalfScript_def)
  have k: "toLowerCase (scriptHash exampleHalfScript) = ''ab12''"
    by (simp add: exampleHalfScript_def str_eval)
  have v: "ps_plutusVersion exampleHalfScript = Some 0"
    by (simp add: exampleHalfScript_def)
  have e: "fmlookup (st_scripts (fst (processScript None ''demo'' exampleState exampleHalfScript))) ''ab12'' =
     Some \<lparr>projectId = ''demo'', se_name = ''Pool'', se_purpose = Some ''SPEND'',
           se_type = Some ''PLUTUS'', se_plutusVersion = Some 0\<rparr>"
    unfolding processScript_result[OF h] k
    by (simp add: Let_def example_defs newEntryOf_def resolve_def hasClassification_def
        fillFrom_def orElse_def nullish_def truthy_def)
  from resolution_keeps_present_fields[where pid = "''demo''" and dbPool = None
      and st = exampleState, OF h processScript_collapse]
  have "ps_plutusVersion (fst (snd (processScript None ''demo'' exampleState exampleHalfScript))) = Some 0"
    using v by blast
  with h v e show ?thesis by simp
qed

subsection \<open>What the loops leave untouched\<close>

lemma processScript_empty: "scriptHash script = [] \<Longrightarrow> processScript dbPool pid st script = (st, script, False)"
  by (simp add: processScript_def)

lemma processScript_scripts:
  assumes "scriptHash script \<noteq> []"
  shows "st_scripts (fst (processScript dbPool pid st script)) =
           st_scripts st \<or>
         st_scripts (fst (processScript dbPool pid st script)) =
           fmupd (toLowerCase (scriptHash script))
             (newEntryOf pid script
                (resolve dbPool (fmlookup (st_scripts st) (toLowerCase (scriptHash script)))
                   (toLowerCase (scriptHash script)) script))
             (st_scripts st)"
  unfolding processScript_result[OF assms] by (simp add: Let_def)

lemma processScript_frame:
  assumes "scriptHash script = [] \<or> k \<noteq> toLowerCase (scriptHash script)"
  shows "fmlookup (st_scripts (fst (processScript dbPool pid st script))) k = fmlookup (st_scripts st) k"
proof (cases "scriptHash script = []")
  case True
  then show ?thesis by (simp add: processScript_empty)
next
  case False
  with assms have k: "k \<noteq> toLowerCase (scriptHash script)" by simp
  from processScript_scripts[OF False, of dbPool pid st] k show ?thesis
    by auto
qed

lemma processScript_dom:
  "fmdom (st_scripts st) |\<subseteq>| fmdom (st_scripts (fst (processScript dbPool pid st script)))"
proof (cases "scriptHash script = []")
  case True
  then show ?thesis by (simp add: processScript_empty)
next
  case False
  from processScript_scripts[OF False, of dbPool pid st] show ?thesis
    by auto
qed

lemma processScript_other:
  "st_projects (fst (processScript dbPool pid st script)) = st_projects st \<and>
   projectsLogged (fst (processScript dbPool pid st script)) = projectsLogged st \<and>
   projectFilesToUpdate (fst (processScript dbPool pid st script)) = projectFilesToUpdate st"
proof (cases "scriptHash script = []")
  case True
  then show ?thesis by (simp add: processScript_empty)
next
  case False
  show ?thesis
    unfolding processScript_result[OF False] by (simp add: Let_def)
qed

lemma scriptKeys_Cons:
  "scriptKeys (s # ss) =
     (if scriptHash s = [] then scriptKeys ss else toLowerCase (scriptHash s) # scriptKeys ss)"
  by (simp add: scriptKeys_def)

lemma processScripts_frame:
  "k \<notin> set (scriptKeys ss) \<Longrightarrow>
   fmlookup (st_scripts (fst (processScripts dbPool pid st ss))) k = fmlookup (st_scripts st) k"
proof (induction ss arbitrary: st)
  case Nil
  then show ?case by simp
next
  case (Cons s ss)
  obtain st1 s' m1 where one: "processScript dbPool pid st s = (st1, s', m1)"
    by (cases "processScript dbPool pid st s") auto
  obtain st2 ss' m2 where more: "processScripts dbPool pid st1 ss = (st2, ss', m2)"
    by (cases "processScripts dbPool pid st1 ss") auto
  from Cons.prems have k: "scriptHash s = [] \<or> k \<noteq> toLowerCase (scriptHash s)"
    and rest: "k \<notin> set (scriptKeys ss)"
    by (auto simp: scriptKeys_Cons split: if_splits)
  have "fmlookup (st_scripts st2) k = fmlookup (st_scripts st1) k"
    using Cons.IH[OF rest, of st1] more by simp
  also have "\<dots> = fmlookup (st_scripts st) k"
    using processScript_frame[OF k, of dbPool pid st] one by simp
  finally show ?case by (simp add: one more)
qed

lemma processScripts_dom:
  "fmdom (st_scripts st) |\<subseteq>| fmdom (st_scripts (fst (processScripts dbPool pid st ss)))"
proof (induction ss arbitrary: st)
  case Nil
  then show ?case by simp
next
  case (Cons s ss)
  obtain st1 s' m1 where one: "processScript dbPool pid st s = (st1, s', m1)"
    by (cases "processScript dbPool pid st s") auto
  obtain st2 ss' m2 where more: "processScripts dbPool pid st1 ss = (st2, ss', m2)"
    by (cases "processScripts dbPool pid st1 ss") auto
  have "fmdom (st_scripts st) |\<subseteq>| fmdom (st_scripts st1)"
    using processScript_dom[of st dbPool pid s] one by simp
  moreover have "fmdom (st_scripts st1) |\<subseteq>| fmdom (st_scripts st2)"
    using Cons.IH[of st1] more by simp
  ultimately show ?case by (simp add: one more)
qed

lemma processScripts_other:
  "st_projects (fst (processScripts dbPool pid st ss)) = st_projects st \<and>
   projectsLogged (fst (processScripts dbPool pid st ss)) = projectsLogged st \<and>
   projectFilesToUpdate (fst (processScripts dbPool pid st ss)) = projectFilesToUpdate st"
proof (induction ss arbitrary: st)
  case Nil
  then show ?case by simp
next
  case (Cons s ss)
  obtain st1 s' m1 where one: "processScript dbPool pid st s = (st1, s', m1)"
    by (cases "processScript dbPool pid st s") auto
  obtain st2 ss' m2 where more: "processScripts dbPool pid st1 ss = (st2, ss', m2)"
    by (cases "processScripts dbPool pid st1 ss") auto
  from Cons.IH[of st1] processScript_other[of dbPool pid st s] show ?case
    by (simp add: one more)
qed

lemma upsertProject_other:
  "st_scripts (upsertProject pid entry st) = st_scripts st \<and>
   added (upsertProject pid entry st) = added st \<and>
   updated (upsertProject pid entry st) = updated st \<and>
   unchanged (upsertProject pid entry st) = unchanged st \<and>
   lookupCount (upsertProject pid entry st) = lookupCount st \<and>
   projectFilesToUpdate (upsertProject pid entry st) = projectFilesToUpdate st"
  by (simp add: upsertProject_def split: js_property.splits)

lemma spreadOver_new: "spreadOver old new = new"
  by (cases old, cases new) (simp add: spreadOver_def)

lemma getProperty_cases:
  "getProperty obj name =
     (if name |\<in>| fmdom obj then OwnValue (the (fmlookup obj name))
      else if name \<in> set inheritedNames then InheritedValue else Undefined)"
  by (auto simp: getProperty_def fmlookup_dom_iff split: option.splits)

lemma upsertProject_projects:
  "st_projects (upsertProject pid entry st) = fmupd pid entry (st_projects st)"
  by (simp add: upsertProject_def spreadOver_new split: js_property.splits)

lemma upsertProject_logged:
  "projectsLogged (upsertProject pid entry st) =
     (if pid |\<in>| fmdom (st_projects st) \<or> pid \<in> set inheritedNames then projectsLogged st
      else projectsLogged st @ [pid])"
  by (simp add: upsertProject_def getProperty_cases)

text \<open>The loop body for a file, by cases.\<close>

lemma processFile_skip:
  "projectIdOf file = None \<Longrightarrow> processFile dbPool st file = st"
  by (auto simp: projectIdOf_def processFile_def split: file_content.splits option.splits)

lemma processFile_cases:
  assumes "snd file = Json project" and "projectLabelOf project = Some projectLabel"
  shows "processFile dbPool st file =
     (let pid = toKebabCase projectLabel;
          st1 = upsertProject pid (newProjectEntry projectLabel project) st;
          res = processScripts dbPool pid st1 (scriptsOf project)
      in if scriptsOf project = [] then st1
         else if snd (snd res)
         then (fst res)\<lparr>projectFilesToUpdate :=
                 projectFilesToUpdate (fst res) @
                 [(fst file, project\<lparr>p_scripts := Some (fst (snd res))\<rparr>)]\<rparr>
         else fst res)"
  using assms
  by (simp add: processFile_def scriptsOf_def Let_def split: option.splits list.splits prod.splits)

lemma fileKeys_processed:
  "snd file = Json project \<Longrightarrow> projectLabelOf project = Some projectLabel \<Longrightarrow>
   fileKeys file = scriptKeys (scriptsOf project)"
  by (simp add: fileKeys_def)

lemma processFile_frame:
  assumes "k \<notin> set (fileKeys file)"
  shows "fmlookup (st_scripts (processFile dbPool st file)) k = fmlookup (st_scripts st) k"
proof (cases "projectIdOf file")
  case None
  then show ?thesis by (simp add: processFile_skip)
next
  case (Some pid)
  then obtain project projectLabel where f: "snd file = Json project"
    and l: "projectLabelOf project = Some projectLabel"
    by (auto simp: projectIdOf_def split: file_content.splits)
  from assms have k: "k \<notin> set (scriptKeys (scriptsOf project))"
    by (simp add: fileKeys_processed[OF f l])
  show ?thesis
    unfolding processFile_cases[OF f l]
    using processScripts_frame[OF k] upsertProject_other
    by (simp add: Let_def)
qed

lemma processFile_dom:
  "fmdom (st_scripts st) |\<subseteq>| fmdom (st_scripts (processFile dbPool st file))"
proof (cases "projectIdOf file")
  case None
  then show ?thesis by (simp add: processFile_skip)
next
  case (Some pid)
  then obtain project projectLabel where f: "snd file = Json project"
    and l: "projectLabelOf project = Some projectLabel"
    by (auto simp: projectIdOf_def split: file_content.splits)
  show ?thesis
    unfolding processFile_cases[OF f l]
    using processScripts_dom[of "upsertProject (toKebabCase projectLabel) (newProjectEntry projectLabel project) st"]
      upsertProject_other[of "toKebabCase projectLabel" "newProjectEntry projectLabel project" st]
    by (simp add: Let_def)
qed

lemma processFiles_frame:
  "k \<notin> set (passKeys files) \<Longrightarrow>
   fmlookup (st_scripts (processFiles dbPool st files)) k = fmlookup (st_scripts st) k"
proof (induction files arbitrary: st)
  case Nil
  then show ?case by simp
next
  case (Cons f files)
  then have "k \<notin> set (fileKeys f)" and "k \<notin> set (passKeys files)"
    by (simp_all add: passKeys_def)
  with Cons.IH[of "processFile dbPool st f"] processFile_frame[of k f dbPool st]
  show ?case by simp
qed

lemma processFiles_dom:
  "fmdom (st_scripts st) |\<subseteq>| fmdom (st_scripts (processFiles dbPool st files))"
proof (induction files arbitrary: st)
  case Nil
  then show ?case by simp
next
  case (Cons f files)
  from Cons.IH[of "processFile dbPool st f"] processFile_dom[of st dbPool f]
  show ?case by auto
qed

subsection \<open>The whole run\<close>

lemma run_returns:
  "projectsDir fs = Some entries \<Longrightarrow> \<exists>r. generateScriptIndex dryRun now dbPool fs = Inr r"
  by (simp add: generateScriptIndex_def Let_def)

lemma run_exits:
  "projectsDir fs = None \<Longrightarrow> generateScriptIndex dryRun now dbPool fs = Inl Exit1"
  by (simp add: generateScriptIndex_def)

lemma run_dir:
  "generateScriptIndex dryRun now dbPool fs = Inr r \<Longrightarrow> \<exists>entries. projectsDir fs = Some entries"
  by (cases "projectsDir fs") (simp_all add: generateScriptIndex_def)

lemma run_state:
  assumes "generateScriptIndex dryRun now dbPool fs = Inr r"
  shows "final_state r = processFiles dbPool (initialState (outputFile fs)) (projectFiles fs)"
  using assms
  by (cases "projectsDir fs") (auto simp: generateScriptIndex_def projectFiles_def Let_def)

lemma run_index:
  assumes "generateScriptIndex dryRun now dbPool fs = Inr r"
  shows "index r =
     \<lparr>metadata = \<lparr>generatedAt = now,
                  scriptCount = fcard (fmdom (st_scripts (final_state r))),
                  projectCount = fcard (fmdom (st_projects (final_state r)))\<rparr>,
      scripts = st_scripts (final_state r), projects = st_projects (final_state r)\<rparr>"
  using assms
  by (cases "projectsDir fs") (auto simp: generateScriptIndex_def Let_def)

lemma run_dry:
  assumes "generateScriptIndex True now dbPool fs = Inr r"
  shows "fs_after r = fs"
  using assms
  by (cases "projectsDir fs") (auto simp: generateScriptIndex_def Let_def)

lemma run_commit:
  assumes "generateScriptIndex False now dbPool fs = Inr r" and "projectsDir fs = Some entries"
  shows "outputFile (fs_after r) = IndexJson (index r) \<and>
         projectsDir (fs_after r) =
           Some (writeProjectFiles (projectFilesToUpdate (final_state r)) entries)"
  using assms
  by (auto simp: generateScriptIndex_def Let_def)

lemma example_files: "projectFiles exampleFs = [(''demo.json'', Json exampleProject)]"
  by (simp add: projectFiles_def exampleFs_def endsWith_def)

lemma example_keys: "producedKeys exampleFs = [''ab12'']"
  by (simp add: producedKeys_def example_files passKeys_def fileKeys_def exampleProject_def
      projectLabelOf_def orElse_def truthy_def scriptsOf_def scriptKeys_def exampleHalfScript_def
      str_eval)

lemma example_pass:
  "processFiles None (initialState (outputFile exampleFs)) (projectFiles exampleFs) =
     \<lparr>st_scripts =
        fmupd ''ab12'' \<lparr>projectId = ''demo'', se_name = ''Pool'', se_purpose = Some ''SPEND'',
                        se_type = Some ''PLUTUS'', se_plutusVersion = Some 0\<rparr>
          (scripts exampleIndex),
      st_projects =
        fmupd ''demo'' \<lparr>pe_label = ''Demo'', pe_category = ''DEFI'', pe_subCategory = None,
                        pe_link = None\<rparr> fmempty,
      added = 0, updated = 1, unchanged = 0, lookupCount = 0,
      projectFilesToUpdate =
        [(''demo.json'', exampleProject\<lparr>p_scripts :=
            Some [exampleHalfScript\<lparr>ps_type := Some ''PLUTUS''\<rparr>]\<rparr>)],
      projectsLogged = [''demo'']\<rparr>"
  unfolding example_files
  by (simp add: run_eval exampleFs_def exampleIndex_def exampleProject_def exampleHalfScript_def
      examplePrior_def initialState_def str_eval)

lemma example_dir:
  "projectsDir exampleFs = Some [(''demo.json'', Json exampleProject), (''notes.txt'', Unreadable)]"
  by (simp add: exampleFs_def)

text \<open>
  C8 (count consistency). In the index a run builds, \<open>scriptCount\<close> is the number of
  keys of the scripts map and \<open>projectCount\<close> the number of keys of the projects map;
  a run that is not a dry run writes exactly that index to the output file.
\<close>

theorem count_consistency:
  assumes "generateScriptIndex dryRun now dbPool fs = Inr r"
  shows "scriptCount (metadata (index r)) = fcard (fmdom (scripts (index r))) \<and>
         projectCount (metadata (index r)) = fcard (fmdom (projects (index r))) \<and>
         (\<not> dryRun \<longrightarrow> outputFile (fs_after r) = IndexJson (index r))"
proof -
  from run_dir[OF assms] obtain entries where d: "projectsDir fs = Some entries" by blast
  have "\<not> dryRun \<longrightarrow> outputFile (fs_after r) = IndexJson (index r)"
    using run_commit[OF _ d] assms by auto
  then show ?thesis
    by (simp add: run_index[OF assms])
qed

theorem count_consistency_witness:
  "\<exists>r. generateScriptIndex False ''2025-02-02'' None exampleFs = Inr r \<and>
       scriptCount (metadata (index r)) = fcard (fmdom (scripts (index r))) \<and>
       scriptCount (metadata (index r)) = 2 \<and>
       projectCount (metadata (index r)) = 1 \<and>
       outputFile (fs_after r) = IndexJson (index r)"
proof -
  from run_returns[OF example_dir]
  obtain r where run: "generateScriptIndex False ''2025-02-02'' None exampleFs = Inr r"
    by blast
  note C = count_consistency[OF run]
  have st: "final_state r =
      processFiles None (initialState (outputFile exampleFs)) (projectFiles exampleFs)"
    by (rule run_state[OF run])
  have "fcard (fmdom (scripts (index r))) = 2"
    by (simp add: run_index[OF run] st example_pass exampleIndex_def fcard_finsert_if)
  moreover have "fcard (fmdom (projects (index r))) = 1"
    by (simp add: run_index[OF run] st example_pass fcard_finsert_if)
  ultimately show ?thesis
    using C run by simp
qed

text \<open>
  C4 (dry-run purity). From the same file system, clock and database, the dry run and
  the committing run either both exit with code 1, or both return; then the dry run
  leaves the file system as it was (neither the index file nor a project file is
  written) while its counters added, updated and unchanged, its whole final state and
  the index it builds in memory are those of the committing run.
\<close>

theorem dry_run_purity:
  "(generateScriptIndex True now dbPool fs = Inl Exit1 \<and>
    generateScriptIndex False now dbPool fs = Inl Exit1) \<or>
   (\<exists>dry wet.
      generateScriptIndex True now dbPool fs = Inr dry \<and>
      generateScriptIndex False now dbPool fs = Inr wet \<and>
      fs_after dry = fs \<and>
      added (final_state dry) = added (final_state wet) \<and>
      updated (final_state dry) = updated (final_state wet) \<and>
      unchanged (final_state dry) = unchanged (final_state wet) \<and>
      final_state dry = final_state wet \<and> index dry = index wet)"
proof (cases "projectsDir fs")
  case None
  then show ?thesis by (simp add: run_exits)
next
  case (Some entries)
  from run_returns[OF Some] obtain dry where dry: "generateScriptIndex True now dbPool fs = Inr dry"
    by blast
  from run_returns[OF Some] obtain wet where wet: "generateScriptIndex False now dbPool fs = Inr wet"
    by blast
  have st: "final_state dry = final_state wet"
    by (simp add: run_state[OF dry] run_state[OF wet])
  have "index dry = index wet"
    by (simp add: run_index[OF dry] run_index[OF wet] st)
  with st run_dry[OF dry] dry wet show ?thesis by simp
qed

theorem dry_run_purity_witness:
  "\<exists>dry wet.
      generateScriptIndex True ''2025-02-02'' None exampleFs = Inr dry \<and>
      generateScriptIndex False ''2025-02-02'' None exampleFs = Inr wet \<and>
      fs_after dry = exampleFs \<and> fs_after wet \<noteq> exampleFs \<and>
      updated (final_state dry) = 1 \<and> updated (final_state wet) = 1"
proof -
  from dry_run_purity[of "''2025-02-02''" None exampleFs]
  obtain dry wet where dry: "generateScriptIndex True ''2025-02-02'' None exampleFs = Inr dry"
    and wet: "generateScriptIndex False ''2025-02-02'' None exampleFs = Inr wet"
    and same: "fs_after dry = exampleFs" "updated (final_state dry) = updated (final_state wet)"
    using run_returns[OF example_dir, of True "''2025-02-02''" None]
    by auto
  have "updated (final_state wet) = 1"
    by (simp add: run_state[OF wet] example_pass)
  moreover have "fs_after wet \<noteq> exampleFs"
  proof
    assume "fs_after wet = exampleFs"
    then have "outputFile exampleFs = IndexJson (index wet)"
      using run_commit[OF wet example_dir] by simp
    then have "generatedAt (metadata exampleIndex) = generatedAt (metadata (index wet))"
      by (simp add: exampleFs_def)
    then show False
      by (simp add: run_index[OF wet] exampleIndex_def)
  qed
  ultimately show ?thesis using dry wet same by auto
qed

text \<open>
  C3 (no data loss on merge). When the output file holds an index with an entry \<open>e\<close> at
  a key \<open>k\<close> that no script record of the pass produces, the index built by the run
  still holds \<open>e\<close> at \<open>k\<close>, and so does the output file after the run (dry or not);
  every key of the prior scripts map is a key of the new one: no entry is deleted.
\<close>

theorem no_data_loss:
  assumes run: "generateScriptIndex dryRun now dbPool fs = Inr r"
    and prior: "outputFile fs = IndexJson prior"
    and entry: "fmlookup (scripts prior) k = Some e"
    and absent: "k \<notin> set (producedKeys fs)"
  shows "fmlookup (scripts (index r)) k = Some e \<and>
         (\<exists>after. outputFile (fs_after r) = IndexJson after \<and> fmlookup (scripts after) k = Some e) \<and>
         fmdom (scripts prior) |\<subseteq>| fmdom (scripts (index r))"
proof -
  let ?st0 = "initialState (outputFile fs)"
  have s0: "st_scripts ?st0 = scripts prior"
    by (simp add: initialState_def prior)
  have idx: "scripts (index r) = st_scripts (final_state r)"
    by (simp add: run_index[OF run])
  have kept: "fmlookup (scripts (index r)) k = Some e"
    using processFiles_frame[of k "projectFiles fs" dbPool ?st0] absent entry
    by (simp add: idx run_state[OF run] producedKeys_def s0)
  have dom: "fmdom (scripts prior) |\<subseteq>| fmdom (scripts (index r))"
    using processFiles_dom[of ?st0 dbPool "projectFiles fs"]
    by (simp add: idx run_state[OF run] s0)
  have "\<exists>after. outputFile (fs_after r) = IndexJson after \<and> fmlookup (scripts after) k = Some e"
  proof (cases dryRun)
    case True
    with run have "generateScriptIndex True now dbPool fs = Inr r" by simp
    then have "fs_after r = fs" by (rule run_dry)
    with prior entry show ?thesis by simp
  next
    case False
    from run_dir[OF run] obtain entries where d: "projectsDir fs = Some entries" by blast
    from run_commit[OF _ d] run False have "outputFile (fs_after r) = IndexJson (index r)"
      by auto
    with kept show ?thesis by simp
  qed
  with kept dom show ?thesis by simp
qed

theorem no_data_loss_witness:
  "outputFile exampleFs = IndexJson exampleIndex \<and>
   fmlookup (scripts exampleIndex) ''ffff'' = Some exampleOther \<and>
   ''ffff'' \<notin> set (producedKeys exampleFs) \<and>
   (\<exists>r. generateScriptIndex False ''2025-02-02'' None exampleFs = Inr r \<and>
        fmlookup (scripts (index r)) ''ffff'' = Some exampleOther \<and>
        updated (final_state r) = 1)"
proof -
  have f: "outputFile exampleFs = IndexJson exampleIndex"
    by (simp add: exampleFs_def)
  have e: "fmlookup (scripts exampleIndex) ''ffff'' = Some exampleOther"
    by (simp add: exampleIndex_def)
  have k: "''ffff'' \<notin> set (producedKeys exampleFs)"
    by (simp add: example_keys)
  from run_returns[OF example_dir]
  obtain r where run: "generateScriptIndex False ''2025-02-02'' None exampleFs = Inr r"
    by blast
  have "updated (final_state r) = 1"
    by (simp add: run_state[OF run] example_pass)
  with no_data_loss[OF run f e k] f e k run show ?thesis by blast
qed

subsection \<open>Project entries\<close>

lemma projectLabelOf_raw:
  "projectLabelOf project = Some l \<longleftrightarrow>
     (p_label project = Some l \<and> l \<noteq> []) \<or>
     ((p_label project = None \<or> p_label project = Some []) \<and>
      projectName project = Some l \<and> l \<noteq> [])"
  by (cases "p_label project"; cases "projectName project")
     (auto simp: projectLabelOf_def orElse_def truthy_def Let_def)

lemma processFile_projects:
  assumes "snd file = Json project" and "projectLabelOf project = Some projectLabel"
  shows "st_projects (processFile dbPool st file) =
           fmupd (toKebabCase projectLabel) (newProjectEntry projectLabel project) (st_projects st) \<and>
         projectsLogged (processFile dbPool st file) =
           (if toKebabCase projectLabel |\<in>| fmdom (st_projects st) \<or>
               toKebabCase projectLabel \<in> set inheritedNames
            then projectsLogged st
            else projectsLogged st @ [toKebabCase projectLabel])"
  unfolding processFile_cases[OF assms]
  using processScripts_other[of dbPool "toKebabCase projectLabel"
      "upsertProject (toKebabCase projectLabel) (newProjectEntry projectLabel project) st"
      "scriptsOf project"]
  by (simp add: Let_def upsertProject_projects upsertProject_logged)

lemma processFile_projects_frame:
  assumes "projectIdOf file \<noteq> Some pid"
  shows "fmlookup (st_projects (processFile dbPool st file)) pid = fmlookup (st_projects st) pid"
proof (cases "projectIdOf file")
  case None
  then show ?thesis by (simp add: processFile_skip)
next
  case (Some other)
  then obtain project projectLabel where f: "snd file = Json project"
    and l: "projectLabelOf project = Some projectLabel"
    by (auto simp: projectIdOf_def split: file_content.splits)
  from assms f l have "toKebabCase projectLabel \<noteq> pid"
    by (simp add: projectIdOf_def)
  then show ?thesis
    by (simp add: processFile_projects[OF f l])
qed

lemma processFiles_projects_frame:
  "\<forall>f\<in>set files. projectIdOf f \<noteq> Some pid \<Longrightarrow>
   fmlookup (st_projects (processFiles dbPool st files)) pid = fmlookup (st_projects st) pid"
proof (induction files arbitrary: st)
  case Nil
  then show ?case by simp
next
  case (Cons f files)
  then show ?case
    using processFile_projects_frame[of f pid dbPool st] by simp
qed

lemma processFiles_append:
  "processFiles dbPool st (xs @ ys) = processFiles dbPool (processFiles dbPool st xs) ys"
  by (induction xs arbitrary: st) simp_all

text \<open>The log of added projects: one line for each id the pass finds undefined.\<close>

lemma processFile_log:
  assumes "distinct (projectsLogged st)"
    and "set (projectsLogged st) \<subseteq> fset (fmdom (st_projects st))"
  shows "distinct (projectsLogged (processFile dbPool st file)) \<and>
         set (projectsLogged (processFile dbPool st file)) \<subseteq>
           fset (fmdom (st_projects (processFile dbPool st file))) \<and>
         fset (fmdom (st_projects (processFile dbPool st file))) =
           fset (fmdom (st_projects st)) \<union> {pid. projectIdOf file = Some pid} \<and>
         set (projectsLogged (processFile dbPool st file)) =
           set (projectsLogged st) \<union>
           {pid. projectIdOf file = Some pid \<and> pid |\<notin>| fmdom (st_projects st) \<and>
                 pid \<notin> set inheritedNames}"
proof (cases "projectIdOf file")
  case None
  with assms show ?thesis by (simp add: processFile_skip)
next
  case (Some pid)
  then obtain project projectLabel where f: "snd file = Json project"
    and l: "projectLabelOf project = Some projectLabel"
    by (auto simp: projectIdOf_def split: file_content.splits)
  from Some f l have pid: "projectIdOf file = Some (toKebabCase projectLabel)"
    by (simp add: projectIdOf_def)
  from assms show ?thesis
    by (auto simp: processFile_projects[OF f l] pid)
qed

lemma processFiles_log:
  assumes "distinct (projectsLogged st)"
    and "set (projectsLogged st) \<subseteq> fset (fmdom (st_projects st))"
  shows "distinct (projectsLogged (processFiles dbPool st files)) \<and>
         set (projectsLogged (processFiles dbPool st files)) =
           set (projectsLogged st) \<union>
           {pid. Some pid \<in> set (map projectIdOf files) \<and> pid |\<notin>| fmdom (st_projects st) \<and>
                 pid \<notin> set inheritedNames}"
  using assms
proof (induction files arbitrary: st)
  case Nil
  then show ?case by simp
next
  case (Cons f files)
  note step = processFile_log[OF Cons.prems, of dbPool f]
  from step have d: "distinct (projectsLogged (processFile dbPool st f))"
    and s: "set (projectsLogged (processFile dbPool st f)) \<subseteq>
           fset (fmdom (st_projects (processFile dbPool st f)))"
    by blast+
  from Cons.IH[OF d s] step show ?case
    by (simp only: processFiles.simps) (auto simp: image_iff)
qed

text \<open>A project id is made of small letters, digits and dashes.\<close>

lemma toLowerChar_slug:
  assumes "isLower c \<or> isUpper c \<or> isDigit c \<or> c = CHR ''-''"
  shows "isLower (toLowerChar c) \<or> isDigit (toLowerChar c) \<or> toLowerChar c = CHR ''-''"
  using assms
  by (auto simp: toLowerChar_def isLower_def isUpper_def isDigit_def Let_def)

lemma toKebabCase_chars:
  "c \<in> set (toKebabCase s) \<Longrightarrow> isLower c \<or> isDigit c \<or> c = CHR ''-''"
proof -
  assume "c \<in> set (toKebabCase s)"
  then obtain x where c: "c = toLowerChar x"
    and x: "isLower x \<or> isUpper x \<or> isDigit x \<or> x = CHR ''-''"
    by (auto simp: toKebabCase_def toLowerCase_def keepSlugChars_def)
  from toLowerChar_slug[OF x] show ?thesis by (simp add: c)
qed

lemma toKebabCase_inherited:
  "toKebabCase s \<in> set inheritedNames \<longleftrightarrow> toKebabCase s = ''constructor''"
proof
  assume "toKebabCase s = ''constructor''"
  then show "toKebabCase s \<in> set inheritedNames"
    by (simp add: inheritedNames_def)
next
  assume m: "toKebabCase s \<in> set inheritedNames"
  have no: "CHR ''_'' \<notin> set (toKebabCase s)" "CHR ''O'' \<notin> set (toKebabCase s)"
    "CHR ''P'' \<notin> set (toKebabCase s)" "CHR ''S'' \<notin> set (toKebabCase s)"
    "CHR ''L'' \<notin> set (toKebabCase s)" "CHR ''I'' \<notin> set (toKebabCase s)"
  proof -
    have other: "\<not> (isLower c \<or> isDigit c \<or> c = CHR ''-'')" if "c \<in> set ''_OPSLI''" for c
      using that by (auto simp: isLower_def isDigit_def)
    show "CHR ''_'' \<notin> set (toKebabCase s)" "CHR ''O'' \<notin> set (toKebabCase s)"
      "CHR ''P'' \<notin> set (toKebabCase s)" "CHR ''S'' \<notin> set (toKebabCase s)"
      "CHR ''L'' \<notin> set (toKebabCase s)" "CHR ''I'' \<notin> set (toKebabCase s)"
      using toKebabCase_chars[of _ s] other by (simp_all, blast+)
  qed
  show "toKebabCase s = ''constructor''"
  proof (rule ccontr)
    assume "toKebabCase s \<noteq> ''constructor''"
    with m have "CHR ''_'' \<in> set (toKebabCase s) \<or> CHR ''O'' \<in> set (toKebabCase s) \<or>
        CHR ''P'' \<in> set (toKebabCase s) \<or> CHR ''S'' \<in> set (toKebabCase s) \<or>
        CHR ''L'' \<in> set (toKebabCase s) \<or> CHR ''I'' \<in> set (toKebabCase s)"
      by (auto simp: inheritedNames_def)
    with no show False by blast
  qed
qed

lemma projectIdOf_kebab: "projectIdOf f = Some pid \<Longrightarrow> \<exists>l. pid = toKebabCase l"
  by (auto simp: projectIdOf_def split: file_content.splits)

text \<open>
  C9 (project upsert, as amended). Let a run process the project files
  \<open>before @ (name, Json project) # after\<close>, the record \<open>project\<close> having the usable
  label \<open>projectLabel\<close>: its non-empty label, or else (label absent or empty) its
  non-empty projectName. Right after the record is processed the projects map holds at
  the derived project id an entry made of the record alone: that label, the record's
  category or \<^verbatim>\<open>UNKNOWN\<close> when the category is absent or empty, the record's subCategory
  and \<^verbatim>\<open>link.website\<close>, absent when the record has none; nothing of an older entry
  survives. When no later file derives the same id, this is the entry of the index the
  run builds. The lines \<^verbatim>\<open>+ Project\<close> of the run name no id twice and only ids derived
  in the run that the prior index did not hold: all of those but the id
  \<^verbatim>\<open>constructor\<close>, which every object inherits.
\<close>

theorem project_upsert_last_write_wins:
  assumes run: "generateScriptIndex dryRun now dbPool fs = Inr r"
    and files: "projectFiles fs = before @ (name, Json project) # after"
    and label: "(p_label project = Some projectLabel \<and> projectLabel \<noteq> []) \<or>
                ((p_label project = None \<or> p_label project = Some []) \<and>
                 projectName project = Some projectLabel \<and> projectLabel \<noteq> [])"
  shows "fmlookup (st_projects (processFiles dbPool (initialState (outputFile fs))
                      (before @ [(name, Json project)]))) (toKebabCase projectLabel) =
           Some \<lparr>pe_label = projectLabel,
                 pe_category = (case p_category project of
                                  None \<Rightarrow> ''UNKNOWN''
                                | Some c \<Rightarrow> if c = [] then ''UNKNOWN'' else c),
                 pe_subCategory = p_subCategory project, pe_link = link_website project\<rparr> \<and>
         ((\<forall>f\<in>set after. projectIdOf f \<noteq> Some (toKebabCase projectLabel)) \<longrightarrow>
            fmlookup (projects (index r)) (toKebabCase projectLabel) =
              Some \<lparr>pe_label = projectLabel,
                    pe_category = (case p_category project of
                                     None \<Rightarrow> ''UNKNOWN''
                                   | Some c \<Rightarrow> if c = [] then ''UNKNOWN'' else c),
                    pe_subCategory = p_subCategory project, pe_link = link_website project\<rparr>) \<and>
         distinct (projectsLogged (final_state r)) \<and>
         set (projectsLogged (final_state r)) =
           {pid. Some pid \<in> set (map projectIdOf (projectFiles fs)) \<and>
                 pid |\<notin>| fmdom (st_projects (initialState (outputFile fs))) \<and>
                 pid \<noteq> ''constructor''}"
proof -
  let ?st0 = "initialState (outputFile fs)"
  let ?pid = "toKebabCase projectLabel"
  let ?entry = "\<lparr>pe_label = projectLabel,
                 pe_category = (case p_category project of
                                  None \<Rightarrow> ''UNKNOWN''
                                | Some c \<Rightarrow> if c = [] then ''UNKNOWN'' else c),
                 pe_subCategory = p_subCategory project, pe_link = link_website project\<rparr>"
  from label have l: "projectLabelOf project = Some projectLabel"
    by (simp only: projectLabelOf_raw)
  have f: "snd (name, Json project) = Json project" by simp
  have entry: "newProjectEntry projectLabel project = ?entry"
    by (simp add: newProjectEntry_def categoryOrUnknown_def)
  have here: "fmlookup (st_projects (processFiles dbPool ?st0 (before @ [(name, Json project)]))) ?pid =
      Some ?entry"
    by (simp add: processFiles_append processFile_projects[OF f l] entry)
  have final: "final_state r =
      processFiles dbPool (processFiles dbPool ?st0 (before @ [(name, Json project)])) after"
    by (simp add: run_state[OF run] files processFiles_append)
  have last: "fmlookup (projects (index r)) ?pid = Some ?entry"
    if "\<forall>f\<in>set after. projectIdOf f \<noteq> Some ?pid"
    using processFiles_projects_frame[OF that] here
    by (simp add: run_index[OF run] final)
  have log0: "distinct (projectsLogged ?st0)" "set (projectsLogged ?st0) \<subseteq> fset (fmdom (st_projects ?st0))"
    "projectsLogged ?st0 = []"
    by (simp_all add: initialState_def)
  have inherited: "pid \<notin> set inheritedNames \<longleftrightarrow> pid \<noteq> ''constructor''"
    if "Some pid \<in> set (map projectIdOf (projectFiles fs))" for pid
  proof -
    from that obtain x where "projectIdOf x = Some pid" by auto
    from projectIdOf_kebab[OF this] obtain l where "pid = toKebabCase l" by blast
    then show ?thesis by (simp add: toKebabCase_inherited)
  qed
  from processFiles_log[OF log0(1,2), of dbPool "projectFiles fs"]
  have "distinct (projectsLogged (final_state r))"
    and "set (projectsLogged (final_state r)) =
           {pid. Some pid \<in> set (map projectIdOf (projectFiles fs)) \<and>
                 pid |\<notin>| fmdom (st_projects ?st0) \<and> pid \<notin> set inheritedNames}"
    by (simp_all add: run_state[OF run] log0(3))
  with inherited have "distinct (projectsLogged (final_state r)) \<and>
         set (projectsLogged (final_state r)) =
           {pid. Some pid \<in> set (map projectIdOf (projectFiles fs)) \<and>
                 pid |\<notin>| fmdom (st_projects ?st0) \<and> pid \<noteq> ''constructor''}"
    by blast
  with here last show ?thesis by blast
qed

lemma legacy_dir:
  "projectsDir legacyFs =
     Some [(''legacy.json'', Json legacyProject), (''ctor.json'', Json constructorProject)]"
  by (simp add: legacyFs_def)

lemma legacy_files:
  "projectFiles legacyFs =
     [] @ (''legacy.json'', Json legacyProject) # [(''ctor.json'', Json constructorProject)]"
  "projectFiles legacyFs =
     [(''legacy.json'', Json legacyProject)] @ (''ctor.json'', Json constructorProject) # []"
  by (simp_all add: projectFiles_def legacy_dir endsWith_def)

lemma legacy_ids:
  "toKebabCase ''LegacyApp_ v2 (beta)!'' = ''legacy-app-v2-beta''" "toKebabCase ''Constructor'' = ''constructor''"
  "projectIdOf (''legacy.json'', Json legacyProject) = Some ''legacy-app-v2-beta''"
  "projectIdOf (''ctor.json'', Json constructorProject) = Some ''constructor''"
  by (simp_all add: projectIdOf_def projectLabelOf_def orElse_def truthy_def legacyProject_def
      constructorProject_def str_eval)

text \<open>
  The first file has no label but a projectName, and its id is in the prior index with
  other values; the second file derives the id \<^verbatim>\<open>constructor\<close>. Both entries are those of
  the records, and no project is logged as added.
\<close>

theorem project_upsert_last_write_wins_witness:
  "\<exists>r. generateScriptIndex False ''2025-02-02'' None legacyFs = Inr r \<and>
       fmlookup (projects (index r)) ''legacy-app-v2-beta'' =
         Some \<lparr>pe_label = ''LegacyApp_ v2 (beta)!'', pe_category = ''DEFI'', pe_subCategory = None,
               pe_link = None\<rparr> \<and>
       fmlookup (projects (index r)) ''constructor'' =
         Some \<lparr>pe_label = ''Constructor'', pe_category = ''GENERIC'', pe_subCategory = None,
               pe_link = None\<rparr> \<and>
       projectsLogged (final_state r) = []"
proof -
  from run_returns[OF legacy_dir]
  obtain r where run: "generateScriptIndex False ''2025-02-02'' None legacyFs = Inr r"
    by blast
  have l1: "(p_label legacyProject = Some ''LegacyApp_ v2 (beta)!'' \<and> ''LegacyApp_ v2 (beta)!'' \<noteq> []) \<or>
                ((p_label legacyProject = None \<or> p_label legacyProject = Some []) \<and>
                 projectName legacyProject = Some ''LegacyApp_ v2 (beta)!'' \<and> ''LegacyApp_ v2 (beta)!'' \<noteq> [])"
    by (simp add: legacyProject_def)
  have l2: "(p_label constructorProject = Some ''Constructor'' \<and> ''Constructor'' \<noteq> []) \<or>
                ((p_label constructorProject = None \<or> p_label constructorProject = Some []) \<and>
                 projectName constructorProject = Some ''Constructor'' \<and> ''Constructor'' \<noteq> [])"
    by (simp add: constructorProject_def)
  note T1 = project_upsert_last_write_wins[OF run legacy_files(1) l1]
  note T2 = project_upsert_last_write_wins[OF run legacy_files(2) l2]
  from T1 have "fmlookup (projects (index r)) ''legacy-app-v2-beta'' =
         Some \<lparr>pe_label = ''LegacyApp_ v2 (beta)!'', pe_category = ''DEFI'', pe_subCategory = None,
               pe_link = None\<rparr>"
    by (simp add: legacy_ids legacyProject_def)
  moreover from T2 have "fmlookup (projects (index r)) ''constructor'' =
         Some \<lparr>pe_label = ''Constructor'', pe_category = ''GENERIC'', pe_subCategory = None,
               pe_link = None\<rparr>"
    by (simp add: legacy_ids constructorProject_def)
  moreover have "projectsLogged (final_state r) = []"
  proof -
    from T1 have "set (projectsLogged (final_state r)) =
           {pid. Some pid \<in> set (map projectIdOf (projectFiles legacyFs)) \<and>
                 pid |\<notin>| fmdom (st_projects (initialState (outputFile legacyFs))) \<and>
                 pid \<noteq> ''constructor''}"
      by blast
    also have "\<dots> = {}"
    proof -
      have ids: "map projectIdOf (projectFiles legacyFs) = [Some ''legacy-app-v2-beta'', Some ''constructor'']"
        by (simp add: legacy_files(2) legacy_ids)
      have held: "''legacy-app-v2-beta'' |\<in>| fmdom (st_projects (initialState (outputFile legacyFs)))"
        by (simp add: legacyFs_def initialState_def)
      show ?thesis
        unfolding ids using held by auto
    qed
    finally show ?thesis by simp
  qed
  ultimately show ?thesis using run by blast
qed

lemma collision_dir:
  "projectsDir collisionFs = Some
        [(''a.json'', Json \<lparr>p_label = Some ''Foo Bar'', projectName = None,
                             p_category = Some ''DEFI'', p_subCategory = Some ''DEX'',
                             link_website = Some ''https://foo.example'', p_scripts = None\<rparr>),
         (''b.json'', Json \<lparr>p_label = Some ''foo-bar'', projectName = None,
                             p_category = None, p_subCategory = None,
                             link_website = None, p_scripts = None\<rparr>)]"
  by (simp add: collisionFs_def)

lemma collision_files:
  "projectFiles collisionFs =
        [(''a.json'', Json \<lparr>p_label = Some ''Foo Bar'', projectName = None,
                             p_category = Some ''DEFI'', p_subCategory = Some ''DEX'',
                             link_website = Some ''https://foo.example'', p_scripts = None\<rparr>),
         (''b.json'', Json \<lparr>p_label = Some ''foo-bar'', projectName = None,
                             p_category = None, p_subCategory = None,
                             link_website = None, p_scripts = None\<rparr>)]"
  by (simp add: projectFiles_def collision_dir endsWith_def)

lemma kebab_examples:
  "toKebabCase ''Foo Bar'' = ''foo-bar''" "toKebabCase ''foo-bar'' = ''foo-bar''"
  by (simp_all add: str_eval)

text \<open>
  Two files derive the project id \<^verbatim>\<open>foo-bar\<close>. At the end of the run the entry holds
  the label of the second file and the category \<^verbatim>\<open>UNKNOWN\<close>: neither the values of the
  first record (label \<^verbatim>\<open>Foo Bar\<close>, category \<^verbatim>\<open>DEFI\<close>) nor the absent category of the
  second.
\<close>

theorem project_upsert_counterexample:
  "\<not> isl (generateScriptIndex False ''2025-02-02'' None collisionFs) \<and>
   toKebabCase ''Foo Bar'' = ''foo-bar'' \<and>
   fmlookup (projects (index (projr (generateScriptIndex False ''2025-02-02'' None collisionFs))))
      ''foo-bar'' =
     Some \<lparr>pe_label = ''foo-bar'', pe_category = ''UNKNOWN'', pe_subCategory = None,
           pe_link = None\<rparr>"
proof -
  from run_returns[OF collision_dir]
  obtain r where run: "generateScriptIndex False ''2025-02-02'' None collisionFs = Inr r"
    by blast
  have "st_projects (final_state r) =
      fmupd ''foo-bar'' \<lparr>pe_label = ''foo-bar'', pe_category = ''UNKNOWN'', pe_subCategory = None,
           pe_link = None\<rparr>
        (fmupd ''foo-bar'' \<lparr>pe_label = ''Foo Bar'', pe_category = ''DEFI'',
           pe_subCategory = Some ''DEX'', pe_link = Some ''https://foo.example''\<rparr> fmempty)"
    unfolding run_state[OF run] collision_files
    by (simp add: collisionFs_def initialState_def processFile_def projectLabelOf_def orElse_def
        truthy_def kebab_examples upsertProject_def getProperty_def inheritedNames_def
        newProjectEntry_def categoryOrUnknown_def spreadOver_def Let_def)
  then have "fmlookup (projects (index r)) ''foo-bar'' =
     Some \<lparr>pe_label = ''foo-bar'', pe_category = ''UNKNOWN'', pe_subCategory = None,
           pe_link = None\<rparr>"
    by (simp add: run_index[OF run])
  then show ?thesis
    by (simp add: run kebab_examples)
qed

subsection \<open>Hash normalization\<close>

lemma toLowerChar_idem: "toLowerChar (toLowerChar c) = toLowerChar c"
  by (auto simp: toLowerChar_def Let_def)

lemma toLowerCase_idem: "toLowerCase (toLowerCase s) = toLowerCase s"
  by (simp add: toLowerCase_def toLowerChar_idem)

lemma normalizeHash_112:
  "length h = 112 \<Longrightarrow> normalizeHash h = toLowerCase (take 56 h) \<and> length (normalizeHash h) = 56"
  by (simp add: normalizeHash_def toLowerCase_def)

lemma normalizeHash_other: "length h \<noteq> 112 \<Longrightarrow> normalizeHash h = toLowerCase h"
  by (simp add: normalizeHash_def)

lemma normalizeHash_idem: "normalizeHash (normalizeHash h) = normalizeHash h"
  by (simp add: normalizeHash_def toLowerCase_def toLowerChar_idem)

lemma long_dir:
  "projectsDir longFs = Some
        [(''long.json'', Json \<lparr>p_label = Some ''Long'', projectName = None,
            p_category = Some ''DEFI'', p_subCategory = None, link_website = None,
            p_scripts = Some [\<lparr>ps_name = ''Address'', scriptHash = longHash,
                               ps_purpose = Some ''SPEND'', ps_type = Some ''PLUTUS'',
                               ps_plutusVersion = Some 2\<rparr>]\<rparr>)]"
  by (simp add: longFs_def)

lemma long_lower: "toLowerCase longHash = replicate 112 (CHR ''a'')"
  by (simp add: longHash_def str_eval)

text \<open>
  C1 (hash normalization), evaluated on the builder. \<open>normalizeHash\<close> lower-cases and
  cuts a hash of 112 characters to its first 56 (\<open>normalizeHash_112\<close>,
  \<open>normalizeHash_idem\<close>), but the builder only lower-cases: for a project file whose
  script has the hash of 112 characters \<open>longHash\<close>, the committing run adds an entry
  under the lower-cased key of 112 characters and none under the key of 56 characters
  that \<open>normalizeHash\<close> gives.
\<close>

theorem builder_indexes_112_character_key:
  "length longHash = 112 \<and>
   normalizeHash longHash = replicate 56 (CHR ''a'') \<and>
   \<not> isl (generateScriptIndex False ''2025-02-02'' None longFs) \<and>
   fmlookup (scripts (index (projr (generateScriptIndex False ''2025-02-02'' None longFs))))
      (replicate 112 (CHR ''a'')) =
     Some \<lparr>projectId = ''long'', se_name = ''Address'', se_purpose = Some ''SPEND'',
           se_type = Some ''PLUTUS'', se_plutusVersion = Some 2\<rparr> \<and>
   fmlookup (scripts (index (projr (generateScriptIndex False ''2025-02-02'' None longFs))))
      (normalizeHash longHash) = None \<and>
   added (final_state (projr (generateScriptIndex False ''2025-02-02'' None longFs))) = 1"
proof -
  from run_returns[OF long_dir]
  obtain r where run: "generateScriptIndex False ''2025-02-02'' None longFs = Inr r"
    by blast
  have n: "normalizeHash longHash = replicate 56 (CHR ''a'')"
    by (simp add: normalizeHash_def longHash_def str_eval)
  have files: "projectFiles longFs = [(''long.json'', Json \<lparr>p_label = Some ''Long'', projectName = None,
            p_category = Some ''DEFI'', p_subCategory = None, link_website = None,
            p_scripts = Some [\<lparr>ps_name = ''Address'', scriptHash = longHash,
                               ps_purpose = Some ''SPEND'', ps_type = Some ''PLUTUS'',
                               ps_plutusVersion = Some 2\<rparr>]\<rparr>)]"
    by (simp add: projectFiles_def long_dir endsWith_def)
  have ne: "longHash \<noteq> []"
    by (simp add: longHash_def)
  have k: "toKebabCase ''Long'' = ''long''"
    by (simp add: str_eval)
  have st: "st_scripts (final_state r) =
      fmupd (replicate 112 (CHR ''a''))
        \<lparr>projectId = ''long'', se_name = ''Address'', se_purpose = Some ''SPEND'',
           se_type = Some ''PLUTUS'', se_plutusVersion = Some 2\<rparr> fmempty \<and>
      added (final_state r) = 1"
    unfolding run_state[OF run] files
    by (simp add: longFs_def initialState_def processFile_def projectLabelOf_def orElse_def
        truthy_def k upsertProject_def getProperty_def inheritedNames_def newProjectEntry_def
        categoryOrUnknown_def
        processScript_def ne long_lower resolve_def unresolved_def newEntryOf_def Let_def)
  show ?thesis
    by (simp add: run run_index[OF run] st n) (simp add: longHash_def)
qed

subsection \<open>Running the builder twice\<close>

lemma fillFrom_found:
  assumes "truthy srcType" and "srcVersion \<noteq> None"
  shows "truthy (r_type (fillFrom srcType srcVersion n script)) \<and>
         r_plutusVersion (fillFrom srcType srcVersion n script) \<noteq> None \<and>
         ps_type (r_script (fillFrom srcType srcVersion n script)) =
           r_type (fillFrom srcType srcVersion n script) \<and>
         ps_plutusVersion (r_script (fillFrom srcType srcVersion n script)) =
           r_plutusVersion (fillFrom srcType srcVersion n script)"
  using assms
  by (cases "ps_plutusVersion script")
     (auto simp: fillFrom_def Let_def orElse_def nullish_def)

text \<open>The three ways a resolution ends.\<close>

lemma resolve_outcome:
  obtains
    (present) "truthy (ps_type script)" "ps_plutusVersion script \<noteq> None"
      "resolve dbPool existing hash script = unresolved 0 script"
  | (found) srcType srcVersion k where
      "\<not> (truthy (ps_type script) \<and> ps_plutusVersion script \<noteq> None)"
      "truthy srcType" "srcVersion \<noteq> None"
      "resolve dbPool existing hash script = fillFrom srcType srcVersion k script"
  | (unfound) "\<not> (truthy (ps_type script) \<and> ps_plutusVersion script \<noteq> None)"
      "\<not> hasClassification existing" "dbPool = None \<or> lookupScriptInfo dbPool hash = None"
      "resolve dbPool existing hash script = unresolved (if dbPool = None then 0 else 1) script"
proof (cases "truthy (ps_type script) \<and> ps_plutusVersion script \<noteq> None")
  case True
  then show ?thesis using present by (simp add: resolve_present)
next
  case both: False
  show ?thesis
  proof (cases "hasClassification existing")
    case True
    then obtain e where e: "existing = Some e" "truthy (se_type e)" "se_plutusVersion e \<noteq> None"
      by (auto simp: hasClassification_def split: option.splits)
    with both True have "resolve dbPool existing hash script =
        fillFrom (se_type e) (se_plutusVersion e) 0 script"
      by (auto simp: resolve_def)
    with e both show ?thesis using found by blast
  next
    case noex: False
    show ?thesis
    proof (cases "dbPool = None")
      case True
      with both noex have "resolve dbPool existing hash script =
          unresolved (if dbPool = None then 0 else 1) script"
        by (auto simp: resolve_def)
      from unfound[OF both noex _ this] True show ?thesis
        by blast
    next
      case db: False
      show ?thesis
      proof (cases "lookupScriptInfo dbPool hash")
        case None
        with both noex db have "resolve dbPool existing hash script =
            unresolved (if dbPool = None then 0 else 1) script"
          by (auto simp: resolve_def)
        from unfound[OF both noex _ this] None show ?thesis
          by blast
      next
        case (Some info)
        have t: "truthy (Some (info_type info))"
          using Some
          by (auto simp: lookupScriptInfo_def truthy_def
              split: option.splits query_result.splits list.splits if_splits)
        from both noex db Some have "resolve dbPool existing hash script =
          fillFrom (Some (info_type info)) (Some (info_plutusVersion info)) 1 script"
          by (auto simp: resolve_def)
        with t both show ?thesis using found by blast
      qed
    qed
  qed
qed

text \<open>
  Resolving again against the entry just built gives that entry back, for the record as
  it was and for the record as it is written back.
\<close>

lemma resolve_settles:
  fixes dbPool existing hash script pid
  defines "r \<equiv> resolve dbPool existing hash script"
  defines "n \<equiv> newEntryOf pid script r"
  shows "newEntryOf pid script (resolve dbPool (Some n) hash script) = n \<and>
         newEntryOf pid (r_script r) (resolve dbPool (Some n) hash (r_script r)) = n"
proof -
  consider
    (present) "truthy (ps_type script)" "ps_plutusVersion script \<noteq> None"
      "r = unresolved 0 script"
  | (found) srcType srcVersion k where
      "\<not> (truthy (ps_type script) \<and> ps_plutusVersion script \<noteq> None)"
      "truthy srcType" "srcVersion \<noteq> None" "r = fillFrom srcType srcVersion k script"
  | (unfound) "\<not> (truthy (ps_type script) \<and> ps_plutusVersion script \<noteq> None)"
      "\<not> hasClassification existing" "dbPool = None \<or> lookupScriptInfo dbPool hash = None"
      "r = unresolved (if dbPool = None then 0 else 1) script"
    unfolding r_def by (rule resolve_outcome[of script dbPool existing hash])
  then show ?thesis
  proof cases
    case present
    then show ?thesis
      by (simp add: n_def unresolved_def resolve_present)
  next
    case found
    note ff = fillFrom_found[OF found(2,3), of k script]
    have frame: "ps_name (r_script r) = ps_name script" "ps_purpose (r_script r) = ps_purpose script"
      using fillFrom_frame[of srcType srcVersion k script] by (simp_all add: found(4))
    have cls: "hasClassification (Some n)"
      using ff by (simp add: hasClassification_def n_def newEntryOf_def found(4))
    have again: "resolve dbPool (Some n) hash script =
        fillFrom (r_type r) (r_plutusVersion r) 0 script"
      using found(1) cls by (auto simp: resolve_def n_def newEntryOf_def)
    have t: "r_type (fillFrom (r_type r) (r_plutusVersion r) 0 script) = r_type r"
      by (simp add: fillFrom_def Let_def found(4) orElse_def)
    have v: "r_plutusVersion (fillFrom (r_type r) (r_plutusVersion r) 0 script) = r_plutusVersion r"
      by (simp add: fillFrom_def Let_def found(4) nullish_def split: option.splits)
    have "newEntryOf pid script (resolve dbPool (Some n) hash script) =
        newEntryOf pid script (fillFrom (r_type r) (r_plutusVersion r) 0 script)"
      by (simp only: again)
    also have "\<dots> = n"
      by (simp add: n_def newEntryOf_def t v)
    finally have first: "newEntryOf pid script (resolve dbPool (Some n) hash script) = n" .
    have both': "truthy (ps_type (r_script r))" "ps_plutusVersion (r_script r) \<noteq> None"
      using ff by (simp_all add: found(4))
    have ff': "ps_type (r_script r) = r_type r" "ps_plutusVersion (r_script r) = r_plutusVersion r"
      using ff by (simp_all add: found(4))
    have "resolve dbPool (Some n) hash (r_script r) = unresolved 0 (r_script r)"
      using both' by (rule resolve_present)
    then have "newEntryOf pid (r_script r) (resolve dbPool (Some n) hash (r_script r)) =
        newEntryOf pid (r_script r) (unresolved 0 (r_script r))"
      by (simp only:)
    also have "\<dots> = n"
      by (simp add: unresolved_def n_def newEntryOf_def frame ff')
    finally have second:
      "newEntryOf pid (r_script r) (resolve dbPool (Some n) hash (r_script r)) = n" .
    from first second show ?thesis by simp
  next
    case unfound
    have rs: "r_script r = script" "r_type r = ps_type script"
      "r_plutusVersion r = ps_plutusVersion script"
      by (simp_all add: unfound(4) unresolved_def)
    have nocls: "\<not> hasClassification (Some n)"
      using unfound(1) by (simp add: hasClassification_def n_def newEntryOf_def rs)
    have "resolve dbPool (Some n) hash script =
        unresolved (if dbPool = None then 0 else 1) script"
      using unfound(1,3) nocls by (auto simp: resolve_def)
    then show ?thesis
      by (simp add: rs n_def newEntryOf_def unresolved_def)
  qed
qed

lemma scriptSettled_cong:
  "fmlookup m (toLowerCase (scriptHash script)) = fmlookup m' (toLowerCase (scriptHash script)) \<Longrightarrow>
   scriptSettled dbPool pid m script = scriptSettled dbPool pid m' script"
  by (simp add: scriptSettled_def)

lemma processScript_settled:
  assumes "scriptSettled dbPool pid (st_scripts st) script"
  shows "st_scripts (fst (processScript dbPool pid st script)) = st_scripts st \<and>
         added (fst (processScript dbPool pid st script)) = added st \<and>
         updated (fst (processScript dbPool pid st script)) = updated st"
proof (cases "scriptHash script = []")
  case True
  then show ?thesis by (simp add: processScript_empty)
next
  case False
  let ?key = "toLowerCase (scriptHash script)"
  define c where "c = newEntryOf pid script
      (resolve dbPool (fmlookup (st_scripts st) ?key) ?key script)"
  from assms False have at: "fmlookup (st_scripts st) ?key = Some c"
    by (simp add: scriptSettled_def c_def)
  have again: "newEntryOf pid script (resolve dbPool (Some c) ?key script) = c"
    unfolding c_def[symmetric, unfolded at] ..
  show ?thesis
    unfolding processScript_result[OF False] by (simp add: Let_def at again)
qed

lemma processScript_settles:
  assumes "processScript dbPool pid st script = (st', script', m)"
  shows "scriptSettled dbPool pid (st_scripts st') script \<and>
         scriptSettled dbPool pid (st_scripts st') script' \<and>
         scriptHash script' = scriptHash script"
proof (cases "scriptHash script = []")
  case True
  with assms show ?thesis by (auto simp: processScript_empty scriptSettled_def)
next
  case False
  let ?key = "toLowerCase (scriptHash script)"
  let ?r = "resolve dbPool (fmlookup (st_scripts st) ?key) ?key script"
  let ?n = "newEntryOf pid script ?r"
  from assms have s': "script' = r_script ?r"
    unfolding processScript_result[OF False] by (simp add: Let_def)
  have h: "scriptHash script' = scriptHash script"
    using resolve_frame[of dbPool _ _ script] by (simp add: s')
  from assms have at: "fmlookup (st_scripts st') ?key = Some ?n"
    unfolding processScript_result[OF False] by (auto simp: Let_def split: if_splits)
  note again = resolve_settles[of pid script dbPool "fmlookup (st_scripts st) ?key" ?key]
  have "scriptSettled dbPool pid (st_scripts st') script"
    using again by (simp add: scriptSettled_def at)
  moreover have "scriptSettled dbPool pid (st_scripts st') script'"
    using again by (simp add: scriptSettled_def h at) (simp add: s')
  ultimately show ?thesis using h by simp
qed

lemma processScripts_settled:
  "list_all (scriptSettled dbPool pid (st_scripts st)) ss \<Longrightarrow>
   st_scripts (fst (processScripts dbPool pid st ss)) = st_scripts st \<and>
   added (fst (processScripts dbPool pid st ss)) = added st \<and>
   updated (fst (processScripts dbPool pid st ss)) = updated st"
proof (induction ss arbitrary: st)
  case Nil
  then show ?case by simp
next
  case (Cons s ss)
  obtain st1 s' m1 where one: "processScript dbPool pid st s = (st1, s', m1)"
    by (cases "processScript dbPool pid st s") auto
  obtain st2 ss' m2 where more: "processScripts dbPool pid st1 ss = (st2, ss', m2)"
    by (cases "processScripts dbPool pid st1 ss") auto
  from Cons.prems have s: "scriptSettled dbPool pid (st_scripts st) s"
    and rest: "list_all (scriptSettled dbPool pid (st_scripts st)) ss"
    by simp_all
  from processScript_settled[OF s] one
  have step: "st_scripts st1 = st_scripts st" "added st1 = added st" "updated st1 = updated st"
    by simp_all
  from rest have "list_all (scriptSettled dbPool pid (st_scripts st1)) ss"
    by (simp add: step)
  from Cons.IH[OF this] more step show ?case
    by (simp add: one)
qed

lemma processScripts_settles:
  assumes "distinct (scriptKeys ss)"
    and "processScripts dbPool pid st ss = (st', ss', m)"
  shows "list_all (scriptSettled dbPool pid (st_scripts st')) ss \<and>
         list_all (scriptSettled dbPool pid (st_scripts st')) ss' \<and>
         scriptKeys ss' = scriptKeys ss"
  using assms
proof (induction ss arbitrary: st st' ss' m)
  case Nil
  then show ?case by auto
next
  case (Cons s ss)
  obtain st1 s1 m1 where one: "processScript dbPool pid st s = (st1, s1, m1)"
    by (cases "processScript dbPool pid st s") auto
  obtain st2 ss2 m2 where more: "processScripts dbPool pid st1 ss = (st2, ss2, m2)"
    by (cases "processScripts dbPool pid st1 ss") auto
  from Cons.prems(2) one more have res: "st' = st2" "ss' = s1 # ss2"
    by simp_all
  from Cons.prems(1) have d: "distinct (scriptKeys ss)"
    and k: "scriptHash s = [] \<or> toLowerCase (scriptHash s) \<notin> set (scriptKeys ss)"
    by (auto simp: scriptKeys_Cons split: if_splits)
  note ih = Cons.IH[OF d more]
  note here = processScript_settles[OF one]
  have same: "fmlookup (st_scripts st2) (toLowerCase (scriptHash s)) =
      fmlookup (st_scripts st1) (toLowerCase (scriptHash s))" if "scriptHash s \<noteq> []"
    using processScripts_frame[of "toLowerCase (scriptHash s)" ss dbPool pid st1] k that more
    by simp
  have s_ok: "scriptSettled dbPool pid (st_scripts st2) s"
  proof (cases "scriptHash s = []")
    case True
    then show ?thesis by (simp add: scriptSettled_def)
  next
    case False
    from scriptSettled_cong[OF same[OF False]] here show ?thesis by simp
  qed
  have s1_ok: "scriptSettled dbPool pid (st_scripts st2) s1"
  proof (cases "scriptHash s = []")
    case True
    with here show ?thesis by (simp add: scriptSettled_def)
  next
    case False
    from here have "scriptHash s1 = scriptHash s" by simp
    with scriptSettled_cong[of "st_scripts st2" s1 "st_scripts st1"] same[OF False] here
    show ?thesis by simp
  qed
  have keys: "scriptKeys (s1 # ss2) = scriptKeys (s # ss)"
    using ih here by (simp add: scriptKeys_Cons)
  from s_ok s1_ok ih keys show ?case
    by (simp add: res)
qed

lemma fileSettled_cong:
  assumes "\<forall>k\<in>set (fileKeys file). fmlookup m k = fmlookup m' k"
  shows "fileSettled dbPool m file = fileSettled dbPool m' file"
proof (cases "projectIdOf file")
  case None
  then show ?thesis
    by (auto simp: projectIdOf_def fileSettled_def split: file_content.splits option.splits)
next
  case (Some pid)
  then obtain project projectLabel where f: "snd file = Json project"
    and l: "projectLabelOf project = Some projectLabel"
    by (auto simp: projectIdOf_def split: file_content.splits)
  have "scriptSettled dbPool (toKebabCase projectLabel) m s =
        scriptSettled dbPool (toKebabCase projectLabel) m' s" if "s \<in> set (scriptsOf project)" for s
  proof (cases "scriptHash s = []")
    case True
    then show ?thesis by (simp add: scriptSettled_def)
  next
    case False
    with that have "toLowerCase (scriptHash s) \<in> set (fileKeys file)"
      by (auto simp: fileKeys_processed[OF f l] scriptKeys_def)
    with assms show ?thesis
      by (intro scriptSettled_cong) simp
  qed
  then show ?thesis
    by (simp add: fileSettled_def f l list_all_iff)
qed

lemma processFile_settled:
  assumes "fileSettled dbPool (st_scripts st) file"
  shows "st_scripts (processFile dbPool st file) = st_scripts st \<and>
         added (processFile dbPool st file) = added st \<and>
         updated (processFile dbPool st file) = updated st"
proof (cases "projectIdOf file")
  case None
  then show ?thesis by (simp add: processFile_skip)
next
  case (Some pid)
  then obtain project projectLabel where f: "snd file = Json project"
    and l: "projectLabelOf project = Some projectLabel"
    by (auto simp: projectIdOf_def split: file_content.splits)
  let ?st1 = "upsertProject (toKebabCase projectLabel) (newProjectEntry projectLabel project) st"
  note up = upsertProject_other[of "toKebabCase projectLabel" "newProjectEntry projectLabel project" st]
  from assms have "list_all (scriptSettled dbPool (toKebabCase projectLabel) (st_scripts ?st1))
      (scriptsOf project)"
    by (simp add: fileSettled_def f l up)
  from processScripts_settled[OF this] up show ?thesis
    unfolding processFile_cases[OF f l] by (simp add: Let_def)
qed

lemma processFiles_settled:
  "\<forall>f\<in>set files. fileSettled dbPool (st_scripts st) f \<Longrightarrow>
   st_scripts (processFiles dbPool st files) = st_scripts st \<and>
   added (processFiles dbPool st files) = added st \<and>
   updated (processFiles dbPool st files) = updated st"
proof (induction files arbitrary: st)
  case Nil
  then show ?case by simp
next
  case (Cons f files)
  from Cons.prems have "fileSettled dbPool (st_scripts st) f" by simp
  note step = processFile_settled[OF this]
  from step have eq: "st_scripts (processFile dbPool st f) = st_scripts st" by simp
  from Cons.prems have "\<forall>x\<in>set files. fileSettled dbPool (st_scripts (processFile dbPool st f)) x"
    by (simp add: eq)
  from Cons.IH[OF this] step show ?case by simp
qed

text \<open>What a file adds to the staged rewrites: nothing, or itself with the scripts as resolved.\<close>

lemma processFile_settles:
  assumes "distinct (fileKeys file)"
  shows "fileSettled dbPool (st_scripts (processFile dbPool st file)) file \<and>
         (\<forall>x\<in>set (projectFilesToUpdate (processFile dbPool st file)).
            x \<in> set (projectFilesToUpdate st) \<or>
            fileSettled dbPool (st_scripts (processFile dbPool st file)) (fst x, Json (snd x)) \<and>
            fileKeys (fst x, Json (snd x)) = fileKeys file)"
proof (cases "projectIdOf file")
  case None
  then show ?thesis
    by (auto simp: processFile_skip projectIdOf_def fileSettled_def
        split: file_content.splits option.splits)
next
  case (Some pid)
  then obtain project projectLabel where f: "snd file = Json project"
    and l: "projectLabelOf project = Some projectLabel"
    by (auto simp: projectIdOf_def split: file_content.splits)
  let ?pid = "toKebabCase projectLabel"
  let ?st1 = "upsertProject ?pid (newProjectEntry projectLabel project) st"
  note up = upsertProject_other[of ?pid "newProjectEntry projectLabel project" st]
  obtain st2 ss' m where res: "processScripts dbPool ?pid ?st1 (scriptsOf project) = (st2, ss', m)"
    by (cases "processScripts dbPool ?pid ?st1 (scriptsOf project)") auto
  from assms have d: "distinct (scriptKeys (scriptsOf project))"
    by (simp add: fileKeys_processed[OF f l])
  note settled = processScripts_settles[OF d res]
  have staged2: "projectFilesToUpdate st2 = projectFilesToUpdate st"
    using processScripts_other[of dbPool ?pid ?st1 "scriptsOf project"] up by (simp add: res)
  let ?p' = "project\<lparr>p_scripts := Some ss'\<rparr>"
  have l': "projectLabelOf ?p' = Some projectLabel"
    using l by (simp add: projectLabelOf_def)
  have new_ok: "fileSettled dbPool (st_scripts st2) (fst file, Json ?p') \<and>
      fileKeys (fst file, Json ?p') = fileKeys file"
    using settled by (simp add: fileSettled_def fileKeys_def l' l f scriptsOf_def)
  have old_ok: "fileSettled dbPool (st_scripts st2) file"
    using settled by (simp add: fileSettled_def f l)
  show ?thesis
  proof (cases "scriptsOf project = []")
    case True
    then show ?thesis
      unfolding processFile_cases[OF f l]
      by (simp add: Let_def fileSettled_def f l up)
  next
    case False
    have pf: "processFile dbPool st file =
        (if m then st2\<lparr>projectFilesToUpdate := projectFilesToUpdate st2 @ [(fst file, ?p')]\<rparr>
         else st2)"
      unfolding processFile_cases[OF f l] using False by (simp add: Let_def res)
    show ?thesis
      unfolding pf using old_ok new_ok staged2 by auto
  qed
qed

lemma passKeys_Cons: "passKeys (f # files) = fileKeys f @ passKeys files"
  by (simp add: passKeys_def)

lemma processFiles_settles:
  assumes "distinct (passKeys files)"
    and "\<forall>x\<in>set (projectFilesToUpdate st).
           fileSettled dbPool (st_scripts st) (fst x, Json (snd x)) \<and>
           set (fileKeys (fst x, Json (snd x))) \<inter> set (passKeys files) = {}"
  shows "(\<forall>f\<in>set files. fileSettled dbPool (st_scripts (processFiles dbPool st files)) f) \<and>
         (\<forall>x\<in>set (projectFilesToUpdate (processFiles dbPool st files)).
            fileSettled dbPool (st_scripts (processFiles dbPool st files)) (fst x, Json (snd x)))"
  using assms
proof (induction files arbitrary: st)
  case Nil
  then show ?case by simp
next
  case (Cons f files)
  let ?st1 = "processFile dbPool st f"
  let ?st' = "processFiles dbPool ?st1 files"
  from Cons.prems(1) have df: "distinct (fileKeys f)" and dr: "distinct (passKeys files)"
    and disj: "set (fileKeys f) \<inter> set (passKeys files) = {}"
    by (simp_all add: passKeys_Cons)
  note here = processFile_settles[OF df, of dbPool st]
  have staged1: "fileSettled dbPool (st_scripts ?st1) (fst x, Json (snd x)) \<and>
           set (fileKeys (fst x, Json (snd x))) \<inter> set (passKeys files) = {}"
    if x: "x \<in> set (projectFilesToUpdate ?st1)" for x
  proof (cases "x \<in> set (projectFilesToUpdate st)")
    case True
    with Cons.prems(2) have old: "fileSettled dbPool (st_scripts st) (fst x, Json (snd x))"
      and away: "set (fileKeys (fst x, Json (snd x))) \<inter> set (passKeys (f # files)) = {}"
      by blast+
    from away have "\<forall>k\<in>set (fileKeys (fst x, Json (snd x))).
        fmlookup (st_scripts ?st1) k = fmlookup (st_scripts st) k"
      using processFile_frame[of _ f dbPool st] by (auto simp: passKeys_Cons)
    from fileSettled_cong[OF this] old away show ?thesis
      by (auto simp: passKeys_Cons)
  next
    case False
    with here x have "fileSettled dbPool (st_scripts ?st1) (fst x, Json (snd x))"
      and "fileKeys (fst x, Json (snd x)) = fileKeys f"
      by blast+
    with disj show ?thesis by simp
  qed
  then have pre: "\<forall>x\<in>set (projectFilesToUpdate ?st1).
           fileSettled dbPool (st_scripts ?st1) (fst x, Json (snd x)) \<and>
           set (fileKeys (fst x, Json (snd x))) \<inter> set (passKeys files) = {}"
    by blast
  note ih = Cons.IH[OF dr pre]
  have "\<forall>k\<in>set (fileKeys f). fmlookup (st_scripts ?st') k = fmlookup (st_scripts ?st1) k"
    using processFiles_frame[of _ files dbPool ?st1] disj by auto
  from fileSettled_cong[OF this] here have "fileSettled dbPool (st_scripts ?st') f"
    by simp
  with ih show ?case by simp
qed

text \<open>Writing the staged files changes no file but into a staged one.\<close>

lemma writeFile_set: "set (writeFile path c dir) \<subseteq> insert (path, c) (set dir)"
  by (induction dir) auto

lemma writeProjectFiles_set:
  "set (writeProjectFiles staged dir) \<subseteq> set dir \<union> (\<lambda>x. (fst x, Json (snd x))) ` set staged"
proof (induction staged arbitrary: dir)
  case Nil
  then show ?case by simp
next
  case (Cons x staged)
  obtain path project where x: "x = (path, project)" by (cases x)
  from Cons.IH[of "writeFile path (Json project) dir"] writeFile_set[of path "Json project" dir]
  show ?case by (auto simp: x)
qed

text \<open>
  C2 (merge idempotence, as amended). Let a committing run return, on a file system
  whose pass produces pairwise distinct keys (no two script records it reads share a
  lower-cased hash). Then a second committing run, with the same database, on the file
  system the first run left (the index it wrote and the project files it rewrote)
  returns as well, adds nothing and updates nothing, and builds the same scripts map.
\<close>

theorem merge_idempotent:
  assumes run1: "generateScriptIndex False now dbPool fs = Inr r1"
    and keys: "distinct (producedKeys fs)"
  shows "\<exists>r2. generateScriptIndex False now' dbPool (fs_after r1) = Inr r2 \<and>
              added (final_state r2) = 0 \<and> updated (final_state r2) = 0 \<and>
              scripts (index r2) = scripts (index r1)"
proof -
  from run_dir[OF run1] obtain entries where dir: "projectsDir fs = Some entries" by blast
  let ?st0 = "initialState (outputFile fs)"
  let ?st1 = "processFiles dbPool ?st0 (projectFiles fs)"
  have st1: "final_state r1 = ?st1" by (rule run_state[OF run1])
  have idx1: "scripts (index r1) = st_scripts ?st1"
    by (simp add: run_index[OF run1] st1)
  note written = run_commit[OF run1 dir]
  from written have dir2: "projectsDir (fs_after r1) =
      Some (writeProjectFiles (projectFilesToUpdate ?st1) entries)"
    by (simp add: st1)
  from run_returns[OF dir2]
  obtain r2 where run2: "generateScriptIndex False now' dbPool (fs_after r1) = Inr r2"
    by blast
  let ?st0' = "initialState (outputFile (fs_after r1))"
  have start: "st_scripts ?st0' = st_scripts ?st1" "added ?st0' = 0" "updated ?st0' = 0"
    using written by (simp_all add: initialState_def idx1)
  have none_staged: "\<forall>x\<in>set (projectFilesToUpdate ?st0).
           fileSettled dbPool (st_scripts ?st0) (fst x, Json (snd x)) \<and>
           set (fileKeys (fst x, Json (snd x))) \<inter> set (passKeys (projectFiles fs)) = {}"
    by (simp add: initialState_def)
  from keys have "distinct (passKeys (projectFiles fs))"
    by (simp add: producedKeys_def)
  note settled = processFiles_settles[OF this none_staged]
  have all: "fileSettled dbPool (st_scripts ?st0') f" if f: "f \<in> set (projectFiles (fs_after r1))" for f
  proof -
    from f have "f \<in> set (writeProjectFiles (projectFilesToUpdate ?st1) entries)"
      and json: "endsWith (fst f) ''.json''"
      by (simp_all add: projectFiles_def dir2)
    with writeProjectFiles_set[of "projectFilesToUpdate ?st1" entries]
    consider "f \<in> set entries" | x where "x \<in> set (projectFilesToUpdate ?st1)" "f = (fst x, Json (snd x))"
      by blast
    then show ?thesis
    proof cases
      case 1
      with json have "f \<in> set (projectFiles fs)"
        by (simp add: projectFiles_def dir)
      with settled show ?thesis by (simp add: start)
    next
      case 2
      with settled show ?thesis by (simp add: start)
    qed
  qed
  then have "\<forall>f\<in>set (projectFiles (fs_after r1)). fileSettled dbPool (st_scripts ?st0') f"
    by blast
  note quiet = processFiles_settled[OF this]
  have "added (final_state r2) = 0" "updated (final_state r2) = 0"
    "scripts (index r2) = scripts (index r1)"
    using quiet by (simp_all add: run_state[OF run2] run_index[OF run2] start idx1)
  with run2 show ?thesis by blast
qed

lemma example_commit:
  assumes "generateScriptIndex False now None exampleFs = Inr r"
  shows "updated (final_state r) = 1"
  by (simp add: run_state[OF assms] example_pass)

theorem merge_idempotent_witness:
  "distinct (producedKeys exampleFs) \<and>
   (\<exists>r1 r2. generateScriptIndex False ''2025-02-02'' None exampleFs = Inr r1 \<and>
       updated (final_state r1) = 1 \<and>
       generateScriptIndex False ''2025-03-03'' None (fs_after r1) = Inr r2 \<and>
       added (final_state r2) = 0 \<and> updated (final_state r2) = 0)"
proof -
  have k: "distinct (producedKeys exampleFs)"
    by (simp add: example_keys)
  from run_returns[OF example_dir]
  obtain r1 where run1: "generateScriptIndex False ''2025-02-02'' None exampleFs = Inr r1"
    by blast
  from merge_idempotent[OF run1 k, of "''2025-03-03''"]
  obtain r2 where "generateScriptIndex False ''2025-03-03'' None (fs_after r1) = Inr r2"
    and "added (final_state r2) = 0" and "updated (final_state r2) = 0"
    by blast
  with k run1 example_commit[OF run1] show ?thesis by blast
qed

lemma duplicate_dir:
  "projectsDir duplicateFs = Some
        [(''twice.json'', Json \<lparr>p_label = Some ''Twice'', projectName = None,
            p_category = Some ''DEFI'', p_subCategory = None, link_website = None,
            p_scripts = Some [\<lparr>ps_name = ''Pool'', scriptHash = ''ab12'',
                               ps_purpose = Some ''SPEND'', ps_type = Some ''PLUTUS'',
                               ps_plutusVersion = Some 2\<rparr>,
                              \<lparr>ps_name = ''Order'', scriptHash = ''AB12'',
                               ps_purpose = Some ''SPEND'', ps_type = Some ''PLUTUS'',
                               ps_plutusVersion = Some 2\<rparr>]\<rparr>)]"
  by (simp add: duplicateFs_def)

lemma duplicate_files:
  "projectsDir fs = projectsDir duplicateFs \<Longrightarrow>
   projectFiles fs =
        [(''twice.json'', Json \<lparr>p_label = Some ''Twice'', projectName = None,
            p_category = Some ''DEFI'', p_subCategory = None, link_website = None,
            p_scripts = Some [\<lparr>ps_name = ''Pool'', scriptHash = ''ab12'',
                               ps_purpose = Some ''SPEND'', ps_type = Some ''PLUTUS'',
                               ps_plutusVersion = Some 2\<rparr>,
                              \<lparr>ps_name = ''Order'', scriptHash = ''AB12'',
                               ps_purpose = Some ''SPEND'', ps_type = Some ''PLUTUS'',
                               ps_plutusVersion = Some 2\<rparr>]\<rparr>)]"
  by (simp add: projectFiles_def duplicate_dir endsWith_def)

lemma duplicate_lower: "toLowerCase ''ab12'' = ''ab12''" "toLowerCase ''AB12'' = ''ab12''"
  "toKebabCase ''Twice'' = ''twice''"
  by (simp_all add: str_eval)

text \<open>
  One project lists the hashes \<^verbatim>\<open>ab12\<close> and \<^verbatim>\<open>AB12\<close> under two names; both give the
  key \<^verbatim>\<open>ab12\<close>. The first committing run adds the entry and overwrites it; the second
  run, on the file system the first one left, overwrites it twice more.
\<close>

theorem merge_idempotence_counterexample:
  "\<not> isl (generateScriptIndex False ''2025-02-02'' None duplicateFs) \<and>
   \<not> isl (generateScriptIndex False ''2025-03-03'' None
            (fs_after (projr (generateScriptIndex False ''2025-02-02'' None duplicateFs)))) \<and>
   updated (final_state (projr (generateScriptIndex False ''2025-03-03'' None
            (fs_after (projr (generateScriptIndex False ''2025-02-02'' None duplicateFs)))))) = 2"
proof -
  from run_returns[OF duplicate_dir]
  obtain r1 where run1: "generateScriptIndex False ''2025-02-02'' None duplicateFs = Inr r1"
    by blast
  have first: "st_scripts (final_state r1) =
        fmupd ''ab12'' \<lparr>projectId = ''twice'', se_name = ''Order'', se_purpose = Some ''SPEND'',
                        se_type = Some ''PLUTUS'', se_plutusVersion = Some 2\<rparr>
          (fmupd ''ab12'' \<lparr>projectId = ''twice'', se_name = ''Pool'', se_purpose = Some ''SPEND'',
                        se_type = Some ''PLUTUS'', se_plutusVersion = Some 2\<rparr> fmempty) \<and>
      st_projects (final_state r1) =
        fmupd ''twice'' \<lparr>pe_label = ''Twice'', pe_category = ''DEFI'', pe_subCategory = None,
                         pe_link = None\<rparr> fmempty \<and>
      projectFilesToUpdate (final_state r1) = []"
    unfolding run_state[OF run1] duplicate_files[OF refl]
    by (simp add: duplicateFs_def initialState_def pass_eval duplicate_lower)
  note written = run_commit[OF run1 duplicate_dir]
  from written first have dir2: "projectsDir (fs_after r1) = projectsDir duplicateFs"
    by (simp add: duplicate_dir)
  from run_returns[OF dir2[unfolded duplicate_dir]]
  obtain r2 where run2: "generateScriptIndex False ''2025-03-03'' None (fs_after r1) = Inr r2"
    by blast
  have start: "initialState (outputFile (fs_after r1)) =
      \<lparr>st_scripts = st_scripts (final_state r1), st_projects = st_projects (final_state r1),
       added = 0, updated = 0, unchanged = 0, lookupCount = 0,
       projectFilesToUpdate = [], projectsLogged = []\<rparr>"
    using written by (simp add: initialState_def run_index[OF run1])
  have "updated (final_state r2) = 2"
    unfolding run_state[OF run2] duplicate_files[OF dir2] start
    by (simp add: first pass_eval duplicate_lower)
  with run1 run2 show ?thesis by simp
qed

end
